theory Spec2Isabelle
  imports Complex_Main "HOL-Library.Word" "HOL-Library.AList"
begin

section \<open>Sloka API: a shallow embedding of the request handlers of index.js\<close>

text \<open>
  The handlers of \<^verbatim>\<open>index.js\<close> read three things from their environment: the quote
  collection (through Mongoose), \<^verbatim>\<open>Math.random()\<close> and the clock. They are modelled as
  functions of a \<open>world\<close> record holding these, and they return the HTTP response together
  with the list of store and random-number operations they performed, in order.

  JavaScript strings are sequences of 16-bit code units. The Numbers that come from the
  request (page, limit, skip) are IEEE doubles: integers that a double can hold, the
  infinities and NaN. The result of \<^verbatim>\<open>Math.random()\<close> is a double in significand and
  exponent. Record counts, offsets into the store and time values are integers of a
  magnitude below \<open>2^53\<close>, on which doubles are exact; they are mathematical integers.
\<close>

subsection \<open>Strings\<close>

type_synonym code_unit = "16 word"
type_synonym js_string = "code_unit list"

text \<open>An ASCII literal of the source as a JavaScript string.\<close>

definition ascii :: "string \<Rightarrow> js_string" where
  "ascii s = map (\<lambda>c. of_nat (of_char c)) s"

subsection \<open>Values, documents and responses\<close>

text \<open>
  A value of a lean document or of a response body. \<open>JOid\<close> is an ObjectId, given by the
  number its twelve bytes denote. Objects keep their properties in insertion order.
\<close>

datatype jsval =
    JNull
  | JBool bool
  | JNum int
  | JStr js_string
  | JOid nat
  | JArr "jsval list"
  | JObj "(string \<times> jsval) list"

type_synonym document = "(string \<times> jsval) list"

record response =
  status :: nat
  body :: jsval

text \<open>A value of \<^verbatim>\<open>req.query\<close> as the query-string parser of Express produces it.\<close>

datatype query_value =
    QStr js_string
  | QArr "query_value list"
  | QObj "(js_string \<times> query_value) list"

text \<open>
  A non-negative finite IEEE double: \<open>significand * 2 ^ exponent\<close>, with a significand of at
  most 53 bits and an exponent no smaller than that of the subnormal numbers.
\<close>

record double =
  significand :: nat
  exponent :: int

definition pow2 :: "int \<Rightarrow> rat" where
  "pow2 e = (if 0 \<le> e then 2 ^ nat e else 1 / 2 ^ nat (- e))"

definition double_val :: "double \<Rightarrow> rat" where
  "double_val d = of_nat (significand d) * pow2 (exponent d)"

definition is_double :: "double \<Rightarrow> bool" where
  "is_double d = (significand d < 2 ^ 53 \<and> - 1074 \<le> exponent d \<and> exponent d \<le> 971)"

text \<open>
  A Number whose fraction is zero: NaN, an integer that is a double, or an infinity. Zero
  stands for both zeros of IEEE arithmetic, which no operation of the handlers tells apart.
\<close>

datatype jsnum = NaN | Num int | PosInf | NegInf

text \<open>The operations a handler performs on its environment, logged in the order of the source.\<close>

datatype effect =
    StoreCount
  | StoreFindOne int
  | StoreFindById js_string
  | StoreFindRegex js_string
  | StoreFindPage jsnum jsnum
  | MathRandom

text \<open>
  A JavaScript error as the global error handler reads it: its \<^verbatim>\<open>name\<close>, \<^verbatim>\<open>message\<close>,
  \<^verbatim>\<open>code\<close> and \<^verbatim>\<open>statusCode\<close> (absent on most errors), and for a validation error the
  messages of \<^verbatim>\<open>err.errors\<close>.
\<close>

record js_error =
  err_name :: string
  err_message :: js_string
  err_code :: "int option"
  err_statusCode :: "nat option"
  err_details :: "js_string list"

text \<open>
  The environment of one request. \<open>production\<close> says whether \<^verbatim>\<open>NODE_ENV\<close> is
  \<^verbatim>\<open>production\<close>. The other fields after the time stamp are behaviour of the libraries
  (bson, MongoDB) and of the host (its time zone) that the repository does not contain:
  they are parameters of the model.
  \<^item> \<open>negative_skip_error\<close>: the error with which the store rejects a negative \<^verbatim>\<open>skip\<close>;
  \<^item> \<open>page_query_error\<close>: the error, if any, with which the store rejects a \<^verbatim>\<open>find\<close> with
    a given skip and limit (a skip beyond its 64-bit integers, say);
  \<^item> \<open>objectid_isValid\<close>: \<^verbatim>\<open>mongoose.Types.ObjectId.isValid\<close> on a string;
  \<^item> \<open>objectid_cast\<close>: the ObjectId a valid string denotes;
  \<^item> \<open>regex_fold\<close>: the case folding of the store's \<^verbatim>\<open>$options: 'i'\<close>;
  \<^item> \<open>regex_engine\<close>: the store's regular-expression search on a pattern that uses
    regex operators;
  \<^item> \<open>local_tza\<close>: ECMAScript's \<open>LocalTZA(t, isUTC)\<close>, the offset of local time in ms.
\<close>

record world =
  collection :: "document list"
  math_random :: double
  now_utc :: int
  iso_timestamp :: js_string
  local_tza :: "int \<Rightarrow> bool \<Rightarrow> int"
  objectid_isValid :: "js_string \<Rightarrow> bool"
  objectid_cast :: "js_string \<Rightarrow> nat"
  regex_fold :: "code_unit \<Rightarrow> code_unit"
  regex_engine :: "js_string \<Rightarrow> js_string \<Rightarrow> bool"
  production :: bool
  negative_skip_error :: js_error
  page_query_error :: "jsnum \<Rightarrow> jsnum \<Rightarrow> js_error option"

subsection \<open>Response helpers (index.js, lines 144-151)\<close>

text \<open>Object spread \<^verbatim>\<open>{...data}\<close>: each property is set in turn, an existing key keeps its place.\<close>

definition spread :: "(string \<times> jsval) list \<Rightarrow> (string \<times> jsval) list \<Rightarrow> (string \<times> jsval) list" where
  "spread base data = foldl (\<lambda>acc kv. AList.update (fst kv) (snd kv) acc) base data"

definition sendResponse :: "world \<Rightarrow> nat \<Rightarrow> (string \<times> jsval) list \<Rightarrow> response" where
  "sendResponse w statusCode data =
     \<lparr>status = statusCode,
      body = JObj (spread [(''success'', JBool True), (''timestamp'', JStr (iso_timestamp w))] data)\<rparr>"

definition errorResponse :: "nat \<Rightarrow> string \<Rightarrow> response" where
  "errorResponse statusCode msg =
     \<lparr>status = statusCode,
      body = JObj [(''success'', JBool False), (''error'', JStr (ascii msg))]\<rparr>"

text \<open>
  The global error handler (index.js, lines 317-353), which answers whatever a handler
  throws or a rejected store call carries. \<^verbatim>\<open>err.statusCode || 500\<close> takes 500 for an absent
  status code and for 0.
\<close>

definition globalErrorHandler :: "world \<Rightarrow> js_error \<Rightarrow> response" where
  "globalErrorHandler w err =
     (if err_name err = ''ValidationError'' then
        \<lparr>status = 400,
         body = JObj [(''success'', JBool False), (''error'', JStr (ascii ''Validation error'')),
                      (''details'', JArr (map JStr (err_details err)))]\<rparr>
      else if err_name err = ''CastError'' then errorResponse 400 ''Invalid ID format''
      else if err_code err = Some 11000 then errorResponse 400 ''Duplicate field value''
      else
        \<lparr>status = (case err_statusCode err of None \<Rightarrow> 500 | Some c \<Rightarrow> if c = 0 then 500 else c),
         body = JObj [(''success'', JBool False),
                      (''error'', JStr (if production w then ascii ''Internal server error''
                                        else err_message err))]\<rparr>)"

subsection \<open>The Quote model through Mongoose (models/Quotes.js and the queries of index.js)\<close>

text \<open>\<^verbatim>\<open>.select('-__v')\<close> drops the version key of a document.\<close>

definition select_minus_v :: "document \<Rightarrow> document" where
  "select_minus_v d = AList.delete ''__v'' d"

text \<open>
  The \<^verbatim>\<open>toJSON\<close> transform of the schema:
  \<^verbatim>\<open>ret.id = ret._id; delete ret._id; delete ret.__v; return ret;\<close>
  Mongoose applies it when a hydrated document is serialised. A query that ends in
  \<^verbatim>\<open>.lean()\<close> returns plain objects, which are serialised as they are.
\<close>

definition toJSON_transform :: "document \<Rightarrow> document" where
  "toJSON_transform ret =
     (let ret1 = (case map_of ret ''_id'' of None \<Rightarrow> ret | Some v \<Rightarrow> AList.update ''id'' v ret);
          ret2 = AList.delete ''_id'' ret1;
          ret3 = AList.delete ''__v'' ret2
      in ret3)"

text \<open>\<^verbatim>\<open>.lean()\<close>: the plain object of the stored document, no transform.\<close>

definition lean :: "document \<Rightarrow> jsval" where
  "lean d = JObj d"

definition countDocuments :: "world \<Rightarrow> effect list \<Rightarrow> nat \<times> effect list" where
  "countDocuments w tr = (length (collection w), tr @ [StoreCount])"

text \<open>
  \<^verbatim>\<open>Quote.findOne().skip(n).select('-__v').lean()\<close>: the n-th document, or null; the store
  rejects a negative \<open>n\<close>.
\<close>

definition findOne_skip ::
  "world \<Rightarrow> int \<Rightarrow> effect list \<Rightarrow> (js_error + jsval) \<times> effect list" where
  "findOne_skip w n tr =
     ((if n < 0 then Inl (negative_skip_error w)
       else Inr (case drop (nat n) (collection w) of
                   [] \<Rightarrow> JNull
                 | d # _ \<Rightarrow> lean (select_minus_v d))),
      tr @ [StoreFindOne n])"

text \<open>\<^verbatim>\<open>Quote.findById(id).select('-__v').lean()\<close>: the document with that \<^verbatim>\<open>_id\<close>, or null.\<close>

definition findById :: "world \<Rightarrow> js_string \<Rightarrow> effect list \<Rightarrow> jsval \<times> effect list" where
  "findById w ident tr =
     ((case filter (\<lambda>d. map_of d ''_id'' = Some (JOid (objectid_cast w ident))) (collection w) of
         [] \<Rightarrow> JNull
       | d # _ \<Rightarrow> lean (select_minus_v d)),
      tr @ [StoreFindById ident])"

text \<open>
  \<^verbatim>\<open>Quote.find().select('-__v').skip(skip).limit(limit).lean()\<close>. Mongoose hands a skip and
  a limit that are Numbers to the store as they are; the store answers with an error or
  with the documents. The handler passes a limit from 1 to 50.
\<close>

definition skip_documents :: "jsnum \<Rightarrow> 'a list \<Rightarrow> 'a list" where
  "skip_documents k xs = (case k of Num n \<Rightarrow> drop (nat n) xs | PosInf \<Rightarrow> [] | _ \<Rightarrow> xs)"

definition limit_documents :: "jsnum \<Rightarrow> 'a list \<Rightarrow> 'a list" where
  "limit_documents k xs = (case k of Num n \<Rightarrow> take (nat n) xs | _ \<Rightarrow> xs)"

definition findPage ::
  "world \<Rightarrow> jsnum \<Rightarrow> jsnum \<Rightarrow> effect list \<Rightarrow> (js_error + jsval list) \<times> effect list" where
  "findPage w skip limit tr =
     ((case page_query_error w skip limit of
         Some err \<Rightarrow> Inl err
       | None \<Rightarrow>
           Inr (map (lean \<circ> select_minus_v)
                  (limit_documents limit (skip_documents skip (collection w))))),
      tr @ [StoreFindPage skip limit])"

subsection \<open>Search-term sanitization (index.js, line 263)\<close>

text \<open>
  \<^verbatim>\<open>source.replace(/[.*+?^${}()|[\]\\]/g, '\\$&')\<close>.
  The character class of the regular expression holds the fourteen code units
  \<^verbatim>\<open>. * + ? ^ $ { } ( ) | [ ] \\<close>.
\<close>

definition regex_special :: "code_unit list" where
  "regex_special =
     [0x2E, 0x2A, 0x2B, 0x3F, 0x5E, 0x24, 0x7B, 0x7D, 0x28, 0x29, 0x7C, 0x5B, 0x5D, 0x5C]"

text \<open>
  The replacement template of \<^verbatim>\<open>String.prototype.replace\<close> (ECMAScript GetSubstitution,
  for a pattern without capture groups): \<^verbatim>\<open>$$\<close> is a dollar sign, \<^verbatim>\<open>$&\<close> the matched
  substring, \<^verbatim>\<open>$`\<close> the text before the match, \<^verbatim>\<open>$'\<close> the text after it; every other
  code unit stands for itself.
\<close>

fun getSubstitution :: "js_string \<Rightarrow> js_string \<Rightarrow> js_string \<Rightarrow> js_string \<Rightarrow> js_string" where
  "getSubstitution matched pre post [] = []"
| "getSubstitution matched pre post [c] = [c]"
| "getSubstitution matched pre post (c # d # r) =
     (if c = 0x24 \<and> d = 0x24 then 0x24 # getSubstitution matched pre post r
      else if c = 0x24 \<and> d = 0x26 then matched @ getSubstitution matched pre post r
      else if c = 0x24 \<and> d = 0x60 then pre @ getSubstitution matched pre post r
      else if c = 0x24 \<and> d = 0x27 then post @ getSubstitution matched pre post r
      else c # getSubstitution matched pre post (d # r))"

text \<open>
  A global replace whose pattern is one character class: the string is scanned from left
  to right, every code unit of the class is a match of length one and is replaced by the
  expanded template, every other code unit is copied.
\<close>

fun replace_class_global :: "code_unit list \<Rightarrow> js_string \<Rightarrow> js_string \<Rightarrow> js_string \<Rightarrow> js_string" where
  "replace_class_global cls tmpl pre [] = []"
| "replace_class_global cls tmpl pre (c # cs) =
     (if c \<in> set cls then getSubstitution [c] pre cs tmpl else [c])
       @ replace_class_global cls tmpl (pre @ [c]) cs"

text \<open>The template \<^verbatim>\<open>'\\$&'\<close> is the three code units backslash, dollar, ampersand.\<close>

definition sanitizedSource :: "js_string \<Rightarrow> js_string" where
  "sanitizedSource source = replace_class_global regex_special [0x5C, 0x24, 0x26] [] source"

subsection \<open>The store's regular-expression search\<close>

text \<open>
  The store compiles the pattern of \<^verbatim>\<open>$regex\<close> with a PCRE engine. How that engine reads
  a pattern is not code of the repository; the model fixes the lexical rules of PCRE that
  decide whether a pattern is a plain text:
  \<^item> outside a character class the metacharacters are the twelve characters
    \<^verbatim>\<open>\ ^ $ . [ | ( ) ? * + {\<close>; any other character stands for itself;
  \<^item> a backslash followed by a character that is not an ASCII letter or digit stands for
    that character, taken literally;
  \<^item> a backslash followed by an ASCII letter or digit (\<^verbatim>\<open>\d\<close>, \<^verbatim>\<open>\w\<close>, \<^verbatim>\<open>\1\<close>, ...) and a
    backslash at the very end of the pattern are regex syntax.
  \<open>pattern_literals p\<close> is \<open>Some s\<close> when \<open>p\<close> is made of literal characters only, and then
  \<open>s\<close> is the text they spell; it is \<open>None\<close> when \<open>p\<close> uses regex syntax.
\<close>

definition pcre_metacharacters :: "code_unit list" where
  "pcre_metacharacters =
     [0x5C, 0x5E, 0x24, 0x2E, 0x5B, 0x7C, 0x28, 0x29, 0x3F, 0x2A, 0x2B, 0x7B]"

definition ascii_alphanumeric :: "code_unit \<Rightarrow> bool" where
  "ascii_alphanumeric c =
     ((0x30 \<le> c \<and> c \<le> 0x39) \<or> (0x41 \<le> c \<and> c \<le> 0x5A) \<or> (0x61 \<le> c \<and> c \<le> 0x7A))"

fun pattern_literals :: "js_string \<Rightarrow> js_string option" where
  "pattern_literals [] = Some []"
| "pattern_literals (c # cs) =
     (if c = 0x5C then
        (case cs of
           [] \<Rightarrow> None
         | d # r \<Rightarrow>
             if ascii_alphanumeric d then None else map_option ((#) d) (pattern_literals r))
      else if c \<in> set pcre_metacharacters then None
      else map_option ((#) c) (pattern_literals cs))"

text \<open>Does \<open>xs\<close> start \<open>ys\<close>; does \<open>xs\<close> occur in \<open>ys\<close> as a contiguous substring.\<close>

fun starts_with :: "'a list \<Rightarrow> 'a list \<Rightarrow> bool" where
  "starts_with [] ys = True"
| "starts_with (x # xs) [] = False"
| "starts_with (x # xs) (y # ys) = (x = y \<and> starts_with xs ys)"

fun occurs_in :: "'a list \<Rightarrow> 'a list \<Rightarrow> bool" where
  "occurs_in xs [] = (xs = [])"
| "occurs_in xs (y # ys) = (starts_with xs (y # ys) \<or> occurs_in xs ys)"

text \<open>
  An unanchored search with \<^verbatim>\<open>$options: 'i'\<close>. A pattern of literal characters matches
  where its text occurs in the subject, up to the case folding of the store; any other
  pattern is left to the engine.
\<close>

definition regex_search :: "world \<Rightarrow> js_string \<Rightarrow> js_string \<Rightarrow> bool" where
  "regex_search w pat subject =
     (case pattern_literals pat of
        Some lits \<Rightarrow> occurs_in (map (regex_fold w) lits) (map (regex_fold w) subject)
      | None \<Rightarrow> regex_engine w pat subject)"

text \<open>
  \<^verbatim>\<open>Quote.find({source: {$regex: p, $options: 'i'}}).select('-__v').lean().limit(50)\<close>:
  the documents whose \<^verbatim>\<open>source\<close> is a string the pattern matches, the first fifty of them.
\<close>

definition source_matches :: "world \<Rightarrow> js_string \<Rightarrow> document \<Rightarrow> bool" where
  "source_matches w pat d =
     (case map_of d ''source'' of Some (JStr s) \<Rightarrow> regex_search w pat s | _ \<Rightarrow> False)"

definition findBySource :: "world \<Rightarrow> js_string \<Rightarrow> effect list \<Rightarrow> jsval list \<times> effect list" where
  "findBySource w pat tr =
     (map (lean \<circ> select_minus_v) (take 50 (filter (source_matches w pat) (collection w))),
      tr @ [StoreFindRegex pat])"

text \<open>ASCII case folding, and bson's test of an ObjectId string: 24 hexadecimal digits.\<close>

definition ascii_lower :: "code_unit \<Rightarrow> code_unit" where
  "ascii_lower c = (if 0x41 \<le> c \<and> c \<le> 0x5A then c + 0x20 else c)"

definition hex_digit :: "code_unit \<Rightarrow> nat option" where
  "hex_digit c =
     (if 0x30 \<le> c \<and> c \<le> 0x39 then Some (unat c - 48)
      else if 0x61 \<le> c \<and> c \<le> 0x66 then Some (unat c - 87)
      else if 0x41 \<le> c \<and> c \<le> 0x46 then Some (unat c - 55)
      else None)"

definition hex24_isValid :: "js_string \<Rightarrow> bool" where
  "hex24_isValid s = (length s = 24 \<and> list_all (\<lambda>c. hex_digit c \<noteq> None) s)"

definition hex_cast :: "js_string \<Rightarrow> nat" where
  "hex_cast s = foldl (\<lambda>acc c. acc * 16 + (case hex_digit c of Some d \<Rightarrow> d | None \<Rightarrow> 0)) 0 s"

subsection \<open>Numbers\<close>

fun bit_length :: "nat \<Rightarrow> nat" where
  "bit_length n = (if n = 0 then 0 else Suc (bit_length (n div 2)))"

declare bit_length.simps [simp del]

text \<open>
  Rounding a natural number to 53 significant bits, to nearest, ties to the even
  significand: the result is \<open>fst * 2 ^ snd\<close>.
\<close>

definition round53 :: "nat \<Rightarrow> nat \<times> nat" where
  "round53 P =
     (if P < 2 ^ 53 then (P, 0)
      else let s = bit_length P - 53;
               q = P div 2 ^ s;
               r = P mod 2 ^ s;
               h = 2 ^ (s - 1)
           in (if r < h \<or> (r = h \<and> even q) then q else q + 1, s))"

text \<open>
  The double nearest to an integer: the integer itself up to \<open>2^53\<close>, beyond that the
  integer rounded to 53 significant bits, and an infinity from \<open>2^1024\<close> on.
\<close>

definition to_double :: "int \<Rightarrow> jsnum" where
  "to_double n =
     (case round53 (nat \<bar>n\<bar>) of
        (q, s) \<Rightarrow>
          if 2 ^ 1024 \<le> q * 2 ^ s then (if n < 0 then NegInf else PosInf)
          else Num (sgn n * int (q * 2 ^ s)))"

text \<open>\<^verbatim>\<open>x || d\<close> on Numbers: NaN and zero are falsy.\<close>

definition or_default :: "jsnum \<Rightarrow> jsnum \<Rightarrow> jsnum" where
  "or_default x d = (if x = NaN \<or> x = Num 0 then d else x)"

text \<open>\<^verbatim>\<open>a < b\<close>, \<^verbatim>\<open>Math.max\<close> and \<^verbatim>\<open>Math.min\<close>; a comparison with NaN is false.\<close>

fun js_less :: "jsnum \<Rightarrow> jsnum \<Rightarrow> bool" where
  "js_less NaN _ = False"
| "js_less _ NaN = False"
| "js_less (Num a) (Num b) = (a < b)"
| "js_less (Num a) PosInf = True"
| "js_less (Num a) NegInf = False"
| "js_less PosInf _ = False"
| "js_less NegInf (Num b) = True"
| "js_less NegInf PosInf = True"
| "js_less NegInf NegInf = False"

definition Math_max :: "jsnum \<Rightarrow> jsnum \<Rightarrow> jsnum" where
  "Math_max a b = (if a = NaN \<or> b = NaN then NaN else if js_less a b then b else a)"

definition Math_min :: "jsnum \<Rightarrow> jsnum \<Rightarrow> jsnum" where
  "Math_min a b = (if a = NaN \<or> b = NaN then NaN else if js_less b a then b else a)"

text \<open>
  \<^verbatim>\<open>a - b\<close> and \<^verbatim>\<open>a * b\<close>: the exact result rounded to a double. The difference of equal
  infinities and the product of an infinity and zero are NaN.
\<close>

fun js_minus :: "jsnum \<Rightarrow> jsnum \<Rightarrow> jsnum" where
  "js_minus NaN _ = NaN"
| "js_minus _ NaN = NaN"
| "js_minus (Num a) (Num b) = to_double (a - b)"
| "js_minus (Num a) PosInf = NegInf"
| "js_minus (Num a) NegInf = PosInf"
| "js_minus PosInf PosInf = NaN"
| "js_minus PosInf _ = PosInf"
| "js_minus NegInf NegInf = NaN"
| "js_minus NegInf _ = NegInf"

fun js_mult :: "jsnum \<Rightarrow> jsnum \<Rightarrow> jsnum" where
  "js_mult NaN _ = NaN"
| "js_mult _ NaN = NaN"
| "js_mult (Num a) (Num b) = to_double (a * b)"
| "js_mult (Num a) PosInf = (if a = 0 then NaN else if 0 < a then PosInf else NegInf)"
| "js_mult (Num a) NegInf = (if a = 0 then NaN else if 0 < a then NegInf else PosInf)"
| "js_mult PosInf (Num b) = (if b = 0 then NaN else if 0 < b then PosInf else NegInf)"
| "js_mult NegInf (Num b) = (if b = 0 then NaN else if 0 < b then NegInf else PosInf)"
| "js_mult PosInf PosInf = PosInf"
| "js_mult PosInf NegInf = NegInf"
| "js_mult NegInf PosInf = NegInf"
| "js_mult NegInf NegInf = PosInf"

text \<open>A Number in a JSON body: \<^verbatim>\<open>JSON.stringify\<close> writes NaN and the infinities as null.\<close>

definition json_number :: "jsnum \<Rightarrow> jsval" where
  "json_number x = (case x of Num n \<Rightarrow> JNum n | _ \<Rightarrow> JNull)"

subsection \<open>parseInt and the pagination bounds (index.js, lines 277-279)\<close>

text \<open>ECMAScript's white space and line terminators, which \<^verbatim>\<open>parseInt\<close> skips at the start.\<close>

definition is_white :: "code_unit \<Rightarrow> bool" where
  "is_white c =
     (c \<in> set [0x09, 0x0A, 0x0B, 0x0C, 0x0D, 0x20, 0xA0, 0x1680, 0x2028, 0x2029, 0x202F,
               0x205F, 0x3000, 0xFEFF]
      \<or> (0x2000 \<le> c \<and> c \<le> 0x200A))"

definition digit_value :: "nat \<Rightarrow> code_unit \<Rightarrow> nat option" where
  "digit_value R c =
     (let v = (if 0x30 \<le> c \<and> c \<le> 0x39 then Some (unat c - 48)
               else if 0x61 \<le> c \<and> c \<le> 0x7A then Some (unat c - 87)
               else if 0x41 \<le> c \<and> c \<le> 0x5A then Some (unat c - 55)
               else None)
      in case v of None \<Rightarrow> None | Some d \<Rightarrow> if d < R then Some d else None)"

fun leading_digits :: "nat \<Rightarrow> js_string \<Rightarrow> nat list" where
  "leading_digits R [] = []"
| "leading_digits R (c # cs) =
     (case digit_value R c of None \<Rightarrow> [] | Some d \<Rightarrow> d # leading_digits R cs)"

definition radix_value :: "nat \<Rightarrow> nat list \<Rightarrow> nat" where
  "radix_value R ds = foldl (\<lambda>acc d. acc * R + d) 0 ds"

text \<open>
  \<^verbatim>\<open>parseInt(string)\<close> with no radix, on a string: skip white space, read a sign, read a
  \<^verbatim>\<open>0x\<close> or \<^verbatim>\<open>0X\<close> prefix (then the radix is 16, else 10), take the longest run of digits
  and stop at the first other character. The result is NaN when there is no digit, and
  else the double nearest to the signed integer the digits denote. (ECMAScript lets an
  implementation approximate a decimal numeral of more than 20 significant digits; the
  model rounds correctly, as V8 does.)
\<close>

definition parseInt_trimmed :: "js_string \<Rightarrow> jsnum" where
  "parseInt_trimmed S =
     (let sgn = (case S of c # _ \<Rightarrow> if c = 0x2D then - 1 else 1 | [] \<Rightarrow> (1::int));
          S1 = (case S of c # r \<Rightarrow> if c = 0x2B \<or> c = 0x2D then r else S | [] \<Rightarrow> S);
          hex = (case S1 of c # d # _ \<Rightarrow> c = 0x30 \<and> (d = 0x78 \<or> d = 0x58) | _ \<Rightarrow> False);
          R = (if hex then 16 else 10);
          S2 = (if hex then drop 2 S1 else S1);
          Z = leading_digits R S2
      in if Z = [] then NaN else to_double (sgn * int (radix_value R Z)))"

definition parseInt :: "js_string \<Rightarrow> jsnum" where
  "parseInt inputString = parseInt_trimmed (dropWhile is_white inputString)"

text \<open>
  ToString of a query value, which \<^verbatim>\<open>parseInt\<close> applies to its argument first. A string is
  itself and an array is its elements joined by commas. An object of the query parser has
  the prototype of plain objects and string, array or object properties: if it has a
  property of its own named \<^verbatim>\<open>toString\<close>, no callable conversion is left and ToString
  throws a TypeError; otherwise it is \<^verbatim>\<open>[object Object]\<close>. An absent parameter
  (\<^verbatim>\<open>undefined\<close>) is the string \<^verbatim>\<open>undefined\<close>.
\<close>

definition type_error :: js_error where
  "type_error =
     \<lparr>err_name = ''TypeError'',
      err_message = ascii ''Cannot convert object to primitive value'',
      err_code = None, err_statusCode = None, err_details = []\<rparr>"

fun join_comma :: "(js_error + js_string) list \<Rightarrow> js_error + js_string" where
  "join_comma [] = Inr []"
| "join_comma (Inl e # r) = Inl e"
| "join_comma [Inr s] = Inr s"
| "join_comma (Inr s # t # r) =
     (case join_comma (t # r) of Inl e \<Rightarrow> Inl e | Inr u \<Rightarrow> Inr (s @ 0x2C # u))"

fun toString_query :: "query_value \<Rightarrow> js_error + js_string" where
  "toString_query (QStr s) = Inr s"
| "toString_query (QArr xs) = join_comma (map toString_query xs)"
| "toString_query (QObj kvs) =
     (if ascii ''toString'' \<in> set (map fst kvs) then Inl type_error
      else Inr (ascii ''[object Object]''))"

definition parseInt_query :: "query_value option \<Rightarrow> js_error + jsnum" where
  "parseInt_query q =
     (case q of
        None \<Rightarrow> Inr (parseInt (ascii ''undefined''))
      | Some v \<Rightarrow> (case toString_query v of Inl e \<Rightarrow> Inl e | Inr s \<Rightarrow> Inr (parseInt s)))"

text \<open>
  Lines 277-279. The page is read before the limit, so an error of the page is the one
  thrown.
\<close>

record page_bounds =
  page :: jsnum
  limit :: jsnum
  skip :: jsnum

definition pagination :: "query_value option \<Rightarrow> query_value option \<Rightarrow> js_error + page_bounds" where
  "pagination qpage qlimit =
     (case parseInt_query qpage of
        Inl e \<Rightarrow> Inl e
      | Inr p \<Rightarrow>
          (case parseInt_query qlimit of
             Inl e \<Rightarrow> Inl e
           | Inr l \<Rightarrow>
               let page = Math_max (Num 1) (or_default p (Num 1));
                   limit = Math_min (Num 50) (Math_max (Num 1) (or_default l (Num 10)));
                   skip = js_mult (js_minus page (Num 1)) limit
               in Inr \<lparr>page = page, limit = limit, skip = skip\<rparr>))"

subsection \<open>Random offset (index.js, line 195)\<close>

text \<open>
  \<^verbatim>\<open>Math.random() * count\<close>: the IEEE product of a double and a count. Both factors are
  doubles, the exact product is \<open>(significand * count) * 2 ^ exponent\<close>, and the result is
  that product rounded to 53 bits.
\<close>

definition js_times :: "double \<Rightarrow> nat \<Rightarrow> double" where
  "js_times d count =
     (let (q, s) = round53 (significand d * count)
      in \<lparr>significand = q, exponent = exponent d + int s\<rparr>)"

text \<open>\<^verbatim>\<open>Math.floor\<close> of a non-negative double.\<close>

definition js_floor :: "double \<Rightarrow> nat" where
  "js_floor d =
     (if 0 \<le> exponent d then significand d * 2 ^ nat (exponent d)
      else significand d div 2 ^ nat (- exponent d))"

definition mathRandom :: "world \<Rightarrow> effect list \<Rightarrow> double \<times> effect list" where
  "mathRandom w tr = (math_random w, tr @ [MathRandom])"

subsection \<open>Day of the year (index.js, lines 212-217)\<close>

text \<open>ECMAScript's date arithmetic on time values (milliseconds since the epoch).\<close>

definition msPerDay :: int where
  "msPerDay = 86400000"

definition Day :: "int \<Rightarrow> int" where
  "Day t = t div msPerDay"

definition DayFromYear :: "int \<Rightarrow> int" where
  "DayFromYear y =
     365 * (y - 1970) + (y - 1969) div 4 - (y - 1901) div 100 + (y - 1601) div 400"

definition TimeFromYear :: "int \<Rightarrow> int" where
  "TimeFromYear y = msPerDay * DayFromYear y"

text \<open>
  \<open>YearFromTime t\<close> is the largest year \<open>y\<close> with \<open>TimeFromYear y \<le> t\<close>. It is found by
  counting up from a year that starts no later than \<open>t\<close>.
\<close>

function year_search :: "int \<Rightarrow> int \<Rightarrow> int" where
  "year_search d y = (if DayFromYear (y + 1) \<le> d then year_search d (y + 1) else y)"
  by pat_completeness auto
termination
proof (relation "measure (\<lambda>(d, y). nat (d + 1 - DayFromYear (y + 1)))")
  show "wf (measure (\<lambda>(d, y). nat (d + 1 - DayFromYear (y + 1))))"
    by simp
next
  fix d y :: int
  assume "DayFromYear (y + 1) \<le> d"
  moreover have "DayFromYear (y + 1) < DayFromYear (y + 1 + 1)"
  proof -
    have a: "(y + 1 - 1969) div 4 \<le> (y + 1 + 1 - 1969) div 4"
      by (rule zdiv_mono1) simp_all
    have "(y + 1 + 1 - 1901) div 100 \<le> (y + 1 - 1901 + 100) div 100"
      by (rule zdiv_mono1) simp_all
    then have b: "(y + 1 + 1 - 1901) div 100 \<le> (y + 1 - 1901) div 100 + 1"
      by simp
    have c: "(y + 1 - 1601) div 400 \<le> (y + 1 + 1 - 1601) div 400"
      by (rule zdiv_mono1) simp_all
    have "365 * (x - 1970) + p - q + r < 365 * (x + 1 - 1970) + p' - q' + r'"
      if "p \<le> p'" "q' \<le> q + 1" "r \<le> r'" for p p' q q' r r' x :: int
      using that by arith
    from this [OF a b c] show ?thesis
      unfolding DayFromYear_def .
  qed
  ultimately show "((d, y + 1), (d, y)) \<in> measure (\<lambda>(d, y). nat (d + 1 - DayFromYear (y + 1)))"
    by simp
qed

declare year_search.simps [simp del]

definition YearFromTime :: "int \<Rightarrow> int" where
  "YearFromTime t =
     (let d = Day t
      in year_search d (1970 + (if 0 \<le> d then d div 366 else d div 365)))"

definition LocalTime :: "world \<Rightarrow> int \<Rightarrow> int" where
  "LocalTime w t = t + local_tza w t True"

definition UTC :: "world \<Rightarrow> int \<Rightarrow> int" where
  "UTC w t = t - local_tza w t False"

text \<open>\<^verbatim>\<open>now.getFullYear()\<close>\<close>

definition getFullYear :: "world \<Rightarrow> int \<Rightarrow> int" where
  "getFullYear w tv = YearFromTime (LocalTime w tv)"

text \<open>
  \<^verbatim>\<open>new Date(year, 0, 0)\<close>: local midnight of day 0 of January, the last day of the year
  before. A year from 0 to 99 means 1900 + year. MakeDay of month 0 and date 0 is the day
  before \<open>DayFromYear\<close>.
\<close>

definition new_Date_year_0_0 :: "world \<Rightarrow> int \<Rightarrow> int" where
  "new_Date_year_0_0 w year =
     (let yr = (if 0 \<le> year \<and> year \<le> 99 then 1900 + year else year);
          day = DayFromYear yr + 0 - 1
      in UTC w (day * msPerDay))"

text \<open>\<^verbatim>\<open>a % b\<close> on integers: the remainder has the sign of the dividend.\<close>

definition js_rem :: "int \<Rightarrow> int \<Rightarrow> int" where
  "js_rem a b = sgn a * (\<bar>a\<bar> mod \<bar>b\<bar>)"

definition dayOfYear_now :: "world \<Rightarrow> int" where
  "dayOfYear_now w =
     (let now = now_utc w;
          start = new_Date_year_0_0 w (getFullYear w now);
          diff = now - start;
          oneDay = 1000 * 60 * 60 * 24
      in diff div oneDay)"

subsection \<open>The request handlers (index.js, lines 184-297)\<close>

text \<open>
  Every handler returns its response and the operations it performed. The store is taken to
  answer every query but one with a negative \<^verbatim>\<open>skip\<close>. A rejected query and a thrown error
  leave the handler through \<^verbatim>\<open>asyncHandler\<close>, which passes them to the global error
  handler.
\<close>

text \<open>\<^verbatim>\<open>GET /api/quote/random\<close>\<close>

definition random_handler :: "world \<Rightarrow> response \<times> effect list" where
  "random_handler w =
     (case countDocuments w [] of (count, t1) \<Rightarrow>
        if count = 0 then (errorResponse 404 ''No quotes found in database'', t1)
        else
          (case mathRandom w t1 of (r, t2) \<Rightarrow>
             let random = js_floor (js_times r count)
             in (case findOne_skip w (int random) t2 of
                   (Inl err, t3) \<Rightarrow> (globalErrorHandler w err, t3)
                 | (Inr quote, t3) \<Rightarrow> (sendResponse w 200 [(''data'', quote)], t3))))"

text \<open>\<^verbatim>\<open>GET /api/quote/daily\<close>\<close>

definition daily_handler :: "world \<Rightarrow> response \<times> effect list" where
  "daily_handler w =
     (case countDocuments w [] of (count, t1) \<Rightarrow>
        if count = 0 then (errorResponse 404 ''No quotes found in database'', t1)
        else
          let dayOfYear = dayOfYear_now w;
              index = js_rem dayOfYear (int count)
          in (case findOne_skip w index t1 of
                (Inl err, t2) \<Rightarrow> (globalErrorHandler w err, t2)
              | (Inr quote, t2) \<Rightarrow>
                  (sendResponse w 200 [(''data'', quote), (''dayOfYear'', JNum dayOfYear)], t2)))"

text \<open>\<^verbatim>\<open>GET /api/quote/:id\<close>; a route parameter is always a string.\<close>

definition id_handler :: "world \<Rightarrow> js_string \<Rightarrow> response \<times> effect list" where
  "id_handler w ident =
     (if \<not> objectid_isValid w ident then (errorResponse 400 ''Invalid quote ID format'', [])
      else
        (case findById w ident [] of (quote, t1) \<Rightarrow>
           if quote = JNull then (errorResponse 404 ''Quote not found'', t1)
           else (sendResponse w 200 [(''data'', quote)], t1)))"

text \<open>
  \<^verbatim>\<open>GET /api/quotes/search\<close>. \<^verbatim>\<open>!source\<close> holds of an absent parameter and of the
  empty string; \<^verbatim>\<open>typeof source !== 'string'\<close> holds of arrays and objects.
\<close>

definition falsy_query :: "query_value option \<Rightarrow> bool" where
  "falsy_query q = (case q of None \<Rightarrow> True | Some (QStr s) \<Rightarrow> s = [] | Some _ \<Rightarrow> False)"

definition typeof_string :: "query_value option \<Rightarrow> bool" where
  "typeof_string q = (case q of Some (QStr _) \<Rightarrow> True | _ \<Rightarrow> False)"

definition search_handler :: "world \<Rightarrow> query_value option \<Rightarrow> response \<times> effect list" where
  "search_handler w qsource =
     (if falsy_query qsource \<or> \<not> typeof_string qsource
      then (errorResponse 400 ''Source query parameter is required'', [])
      else
        (case qsource of
           Some (QStr source) \<Rightarrow>
             (case findBySource w (sanitizedSource source) [] of (quotes, t1) \<Rightarrow>
                (sendResponse w 200
                   [(''count'', JNum (int (length quotes))), (''data'', JArr quotes)], t1))
         | _ \<Rightarrow> (errorResponse 400 ''Source query parameter is required'', [])))"

text \<open>
  \<^verbatim>\<open>Math.ceil(total / limit)\<close> for a record count and a limit. For a limit from 1 to 50 and
  a count below \<open>2^53\<close> the double quotient has the ceiling of the exact quotient. A count
  divided by zero or by NaN is written as null, divided by an infinity it is 0.
\<close>

definition totalPages_of :: "nat \<Rightarrow> jsnum \<Rightarrow> jsval" where
  "totalPages_of total_items per_page =
     (case per_page of
        Num l \<Rightarrow> if l = 0 then JNull else JNum \<lceil>(of_nat total_items :: rat) / of_int l\<rceil>
      | NaN \<Rightarrow> JNull
      | _ \<Rightarrow> JNum 0)"

text \<open>
  \<^verbatim>\<open>GET /api/quotes\<close>. An error thrown while the page and the limit are computed is
  answered by the global error handler, before any store query; so is an error of the
  \<^verbatim>\<open>find\<close>, before the count.
\<close>

definition list_handler ::
  "world \<Rightarrow> query_value option \<Rightarrow> query_value option \<Rightarrow> response \<times> effect list" where
  "list_handler w qpage qlimit =
     (case pagination qpage qlimit of
        Inl err \<Rightarrow> (globalErrorHandler w err, [])
      | Inr b \<Rightarrow>
          (case findPage w (skip b) (limit b) [] of
             (Inl err, t1) \<Rightarrow> (globalErrorHandler w err, t1)
           | (Inr quotes, t1) \<Rightarrow>
             (case countDocuments w t1 of (total_items, t2) \<Rightarrow>
                (sendResponse w 200
                   [(''data'', JArr quotes),
                    (''pagination'', JObj
                       [(''currentPage'', json_number (page b)),
                        (''totalPages'', totalPages_of total_items (limit b)),
                        (''totalItems'', JNum (int total_items)),
                        (''itemsPerPage'', json_number (limit b)),
                        (''hasNextPage'', JBool (js_less (js_mult (page b) (limit b))
                                                   (Num (int total_items)))),
                        (''hasPrevPage'', JBool (js_less (Num 1) (page b)))])], t2))))"

text \<open>Reading a property of a response body.\<close>

definition field :: "jsval \<Rightarrow> string \<Rightarrow> jsval option" where
  "field v k = (case v of JObj kvs \<Rightarrow> map_of kvs k | _ \<Rightarrow> None)"

subsection \<open>Notions of the specification\<close>

text \<open>
  The specification's \<^verbatim>\<open>clamp(x, lo, hi)\<close>, and what it takes a well-formed integer to be: an
  optional sign followed by decimal digits and nothing else.
\<close>

definition clamp :: "int \<Rightarrow> int \<Rightarrow> int \<Rightarrow> int" where
  "clamp x lo hi = min hi (max lo x)"












text \<open>The \<^verbatim>\<open>pagination\<close> block of a response body.\<close>

definition pagination_block :: "response \<Rightarrow> jsval" where
  "pagination_block r = (case field (body r) ''pagination'' of Some v \<Rightarrow> v | None \<Rightarrow> JNull)"

text \<open>
  The 1-based ordinal day of a date within its calendar year, in local time: ECMAScript's
  \<open>DayWithinYear\<close> of the local time value, plus one (day 1 is January 1).
\<close>

definition ordinal_day :: "world \<Rightarrow> int \<Rightarrow> int" where
  "ordinal_day w tv =
     Day (LocalTime w tv) - DayFromYear (YearFromTime (LocalTime w tv)) + 1"

subsection \<open>Concrete environments\<close>

text \<open>
  Two seeded documents, and a world over them: the host runs in UTC, the random number is
  0.75, ObjectIds are 24 hexadecimal digits, case folding is ASCII, the engine matches
  every subject once a pattern uses a regex operator, the process does not run in
  production mode, and the store takes a skip that is an integer from 0 to \<open>2^63 - 1\<close>.
\<close>

definition quote_a :: document where
  "quote_a =
     [(''_id'', JOid 1), (''sloka'', JStr (ascii ''A'')),
      (''source'', JStr (ascii ''Bhagavad Gita'')), (''__v'', JNum 0)]"

definition quote_b :: document where
  "quote_b =
     [(''_id'', JOid 2), (''sloka'', JStr (ascii ''B'')),
      (''source'', JStr (ascii ''Notes on gita.* (draft)'')), (''__v'', JNum 0)]"

definition utc_world :: world where
  "utc_world =
     \<lparr>collection = [quote_a, quote_b],
      math_random = \<lparr>significand = 3, exponent = - 2\<rparr>,
      now_utc = 1751322600000,
      iso_timestamp = ascii ''2025-06-30T22:30:00.000Z'',
      local_tza = (\<lambda>t isUTC. 0),
      objectid_isValid = hex24_isValid,
      objectid_cast = hex_cast,
      regex_fold = ascii_lower,
      regex_engine = (\<lambda>pat subject. True),
      production = False,
      negative_skip_error =
        \<lparr>err_name = ''MongoServerError'',
         err_message = ascii ''Skip value must be non-negative'',
         err_code = Some 2, err_statusCode = None, err_details = []\<rparr>,
      page_query_error =
        (\<lambda>k l. case k of
                  Num n \<Rightarrow>
                    if 0 \<le> n \<and> n < 2 ^ 63 then None
                    else Some \<lparr>err_name = ''MongoServerError'',
                               err_message = ascii ''Skip value out of range'',
                               err_code = Some 2, err_statusCode = None, err_details = []\<rparr>
                | _ \<Rightarrow>
                    Some \<lparr>err_name = ''MongoServerError'',
                          err_message = ascii ''Skip value out of range'',
                          err_code = Some 2, err_statusCode = None, err_details = []\<rparr>)\<rparr>"

definition empty_world :: world where
  "empty_world = utc_world\<lparr>collection := []\<rparr>"

text \<open>A store of sixty copies of one quote.\<close>

definition crowded_world :: world where
  "crowded_world = utc_world\<lparr>collection := replicate 60 quote_a\<rparr>"

text \<open>
  A host in a zone with daylight saving time: Central European Time in 2025, one hour ahead
  of UTC, and two hours ahead from 30 March 01:00 UTC to 26 October 01:00 UTC. The second
  argument of \<open>LocalTZA\<close> says whether the time value is UTC or local. The clock of
  \<open>cet_world\<close> stands at 2025-06-30T22:30:00Z, which is 00:30 on 1 July in local time;
  \<open>cet_world_later\<close> is the same host one hour later, at 01:30 on 1 July.
\<close>

definition cet_2025_tza :: "int \<Rightarrow> bool \<Rightarrow> int" where
  "cet_2025_tza t isUTC =
     (if isUTC then (if 1743296400000 \<le> t \<and> t < 1761440400000 then 7200000 else 3600000)
      else (if 1743300000000 \<le> t \<and> t < 1761447600000 then 7200000 else 3600000))"

definition cet_world :: world where
  "cet_world = utc_world\<lparr>now_utc := 1751322600000, local_tza := cet_2025_tza\<rparr>"

definition cet_world_later :: world where
  "cet_world_later = utc_world\<lparr>now_utc := 1751326200000, local_tza := cet_2025_tza\<rparr>"

section \<open>Search-term sanitization\<close>

lemma getSubstitution_template:
  "getSubstitution matched pre post [0x5C, 0x24, 0x26] = 0x5C # matched"
  by simp

lemma replace_class_global_escape:
  "replace_class_global regex_special [0x5C, 0x24, 0x26] pre s =
     concat (map (\<lambda>c. if c \<in> set regex_special then [0x5C, c] else [c]) s)"
  by (induction s arbitrary: pre) simp_all

lemma regex_special_escapable:
  "c \<in> set regex_special \<Longrightarrow> \<not> ascii_alphanumeric c"
  by (auto simp: regex_special_def ascii_alphanumeric_def)

lemma pcre_metacharacters_special:
  "c \<in> set pcre_metacharacters \<Longrightarrow> c \<in> set regex_special"
  by (auto simp: regex_special_def pcre_metacharacters_def)

lemma pattern_literals_escaped:
  "pattern_literals (concat (map (\<lambda>c. if c \<in> set regex_special then [0x5C, c] else [c]) s)) = Some s"
proof (induction s)
  case Nil
  then show ?case by simp
next
  case (Cons c s)
  show ?case
  proof (cases "c \<in> set regex_special")
    case True
    then show ?thesis
      using Cons regex_special_escapable [of c] by simp
  next
    case False
    then have "c \<notin> set pcre_metacharacters"
      using pcre_metacharacters_special [of c] by blast
    moreover from False have "c \<noteq> 0x5C"
      by (auto simp: regex_special_def)
    ultimately show ?thesis
      using Cons.IH False by simp
  qed
qed

lemma regex_special_fourteen:
  "(c \<in> set regex_special) =
     (c \<in> {0x2E, 0x2A, 0x2B, 0x3F, 0x5E, 0x24, 0x7B, 0x7D, 0x28, 0x29, 0x7C, 0x5B, 0x5D, 0x5C})"
  by (simp add: regex_special_def)

text \<open>
  C1. For every string \<open>source\<close>, the sanitization puts a backslash (code unit 5C) before
  every occurrence of each of the fourteen characters
  \<^verbatim>\<open>. * + ? ^ $ { } ( ) | [ ] \\<close> (code units 2E, 2A, 2B, 3F, 5E, 24, 7B, 7D, 28, 29, 7C, 5B,
  5D, 5C) and copies every other character. A PCRE engine reads the resulting pattern as
  literal characters only, and they spell \<open>source\<close>; so the case-insensitive search of the
  store matches a subject exactly when \<open>source\<close> occurs in it literally (up to case), and
  the pattern is never interpreted as a regex.
\<close>

theorem sanitizedSource_literal:
  "sanitizedSource source =
     concat (map (\<lambda>c. if c \<in> {0x2E, 0x2A, 0x2B, 0x3F, 0x5E, 0x24, 0x7B, 0x7D, 0x28, 0x29,
                               0x7C, 0x5B, 0x5D, 0x5C}
                       then [0x5C, c] else [c]) source)
   \<and> pattern_literals (sanitizedSource source) = Some source
   \<and> regex_search w (sanitizedSource source) subject =
       occurs_in (map (regex_fold w) source) (map (regex_fold w) subject)"
proof -
  have san: "sanitizedSource source =
      concat (map (\<lambda>c. if c \<in> set regex_special then [0x5C, c] else [c]) source)"
    by (simp add: sanitizedSource_def replace_class_global_escape)
  then have lit: "pattern_literals (sanitizedSource source) = Some source"
    by (simp only: pattern_literals_escaped)
  then have srch: "regex_search w (sanitizedSource source) subject =
       occurs_in (map (regex_fold w) source) (map (regex_fold w) subject)"
    by (simp add: regex_search_def)
  from san have "sanitizedSource source =
     concat (map (\<lambda>c. if c \<in> {0x2E, 0x2A, 0x2B, 0x3F, 0x5E, 0x24, 0x7B, 0x7D, 0x28, 0x29,
                               0x7C, 0x5B, 0x5D, 0x5C}
                       then [0x5C, c] else [c]) source)"
    by (simp only: regex_special_fourteen)
  with lit srch show ?thesis
    by (intro conjI)
qed

text \<open>
  The string of all fourteen characters comes back with a backslash before each one. At
  \<^verbatim>\<open>source=Gita.*\<close> the pattern is \<^verbatim>\<open>Gita\.\*\<close>; it does not match the source
  \<^verbatim>\<open>Bhagavad Gita\<close>, which the unescaped pattern would, and it matches
  \<^verbatim>\<open>Notes on gita.* (draft)\<close>. At \<^verbatim>\<open>source=a|b(c)+\<close> the pattern is \<^verbatim>\<open>a\|b\(c\)\+\<close>, which
  is literal, while the unescaped text is regex syntax; the pattern does not match the
  subject \<^verbatim>\<open>a\<close> and matches \<^verbatim>\<open>xA|B(C)+y\<close>.
\<close>

theorem sanitizedSource_literal_witness:
  "sanitizedSource [0x2E, 0x2A, 0x2B, 0x3F, 0x5E, 0x24, 0x7B, 0x7D, 0x28, 0x29, 0x7C, 0x5B, 0x5D, 0x5C]
     = [0x5C, 0x2E, 0x5C, 0x2A, 0x5C, 0x2B, 0x5C, 0x3F, 0x5C, 0x5E, 0x5C, 0x24, 0x5C, 0x7B,
        0x5C, 0x7D, 0x5C, 0x28, 0x5C, 0x29, 0x5C, 0x7C, 0x5C, 0x5B, 0x5C, 0x5D, 0x5C, 0x5C]
   \<and> sanitizedSource (ascii ''Gita.*'') = ascii ''Gita'' @ [0x5C, 0x2E, 0x5C, 0x2A]
   \<and> pattern_literals (sanitizedSource (ascii ''Gita.*'')) = Some (ascii ''Gita.*'')
   \<and> \<not> regex_search utc_world (sanitizedSource (ascii ''Gita.*'')) (ascii ''Bhagavad Gita'')
   \<and> regex_search utc_world (sanitizedSource (ascii ''Gita.*'')) (ascii ''Notes on gita.* (draft)'')
   \<and> regex_search utc_world (ascii ''Gita.*'') (ascii ''Bhagavad Gita'')
   \<and> sanitizedSource (ascii ''a|b(c)+'')
       = [0x61, 0x5C, 0x7C, 0x62, 0x5C, 0x28, 0x63, 0x5C, 0x29, 0x5C, 0x2B]
   \<and> pattern_literals (ascii ''a|b(c)+'') = None
   \<and> pattern_literals (sanitizedSource (ascii ''a|b(c)+'')) = Some (ascii ''a|b(c)+'')
   \<and> \<not> regex_search utc_world (sanitizedSource (ascii ''a|b(c)+'')) (ascii ''a'')
   \<and> regex_search utc_world (sanitizedSource (ascii ''a|b(c)+'')) (ascii ''xA|B(C)+y'')"
proof -
  note all = sanitizedSource_literal
    [of "[0x2E, 0x2A, 0x2B, 0x3F, 0x5E, 0x24, 0x7B, 0x7D, 0x28, 0x29, 0x7C, 0x5B, 0x5D, 0x5C]"
      utc_world "[]"]
  note bg = sanitizedSource_literal [of "ascii ''Gita.*''" utc_world "ascii ''Bhagavad Gita''"]
  note ng = sanitizedSource_literal [of "ascii ''Gita.*''" utc_world "ascii ''Notes on gita.* (draft)''"]
  note ab = sanitizedSource_literal [of "ascii ''a|b(c)+''" utc_world "ascii ''a''"]
  note xy = sanitizedSource_literal [of "ascii ''a|b(c)+''" utc_world "ascii ''xA|B(C)+y''"]
  have fold: "regex_fold utc_world = ascii_lower"
    by (simp add: utc_world_def)
  from all [THEN conjunct1]
  have c0: "sanitizedSource [0x2E, 0x2A, 0x2B, 0x3F, 0x5E, 0x24, 0x7B, 0x7D, 0x28, 0x29, 0x7C, 0x5B, 0x5D, 0x5C]
     = [0x5C, 0x2E, 0x5C, 0x2A, 0x5C, 0x2B, 0x5C, 0x3F, 0x5C, 0x5E, 0x5C, 0x24, 0x5C, 0x7B,
        0x5C, 0x7D, 0x5C, 0x28, 0x5C, 0x29, 0x5C, 0x7C, 0x5C, 0x5B, 0x5C, 0x5D, 0x5C, 0x5C]"
    by simp
  from bg [THEN conjunct1]
  have c1: "sanitizedSource (ascii ''Gita.*'') = ascii ''Gita'' @ [0x5C, 0x2E, 0x5C, 0x2A]"
    by (simp add: ascii_def)
  from bg have c2: "pattern_literals (sanitizedSource (ascii ''Gita.*'')) = Some (ascii ''Gita.*'')"
    by (rule conjunct2 [THEN conjunct1])
  have "\<not> occurs_in (map ascii_lower (ascii ''Gita.*'')) (map ascii_lower (ascii ''Bhagavad Gita''))"
    by (simp add: ascii_def ascii_lower_def)
  with bg [THEN conjunct2, THEN conjunct2]
  have c3: "\<not> regex_search utc_world (sanitizedSource (ascii ''Gita.*'')) (ascii ''Bhagavad Gita'')"
    by (simp add: fold)
  have "occurs_in (map ascii_lower (ascii ''Gita.*''))
          (map ascii_lower (ascii ''Notes on gita.* (draft)''))"
    by (simp add: ascii_def ascii_lower_def)
  with ng [THEN conjunct2, THEN conjunct2]
  have c4: "regex_search utc_world (sanitizedSource (ascii ''Gita.*'')) (ascii ''Notes on gita.* (draft)'')"
    by (simp add: fold)
  have raw: "pattern_literals (ascii ''Gita.*'') = None"
    by (simp add: ascii_def pcre_metacharacters_def)
  have c5: "regex_search utc_world (ascii ''Gita.*'') (ascii ''Bhagavad Gita'')"
    by (simp add: regex_search_def raw utc_world_def)
  from ab [THEN conjunct1]
  have c6: "sanitizedSource (ascii ''a|b(c)+'')
       = [0x61, 0x5C, 0x7C, 0x62, 0x5C, 0x28, 0x63, 0x5C, 0x29, 0x5C, 0x2B]"
    by (simp add: ascii_def)
  have c7: "pattern_literals (ascii ''a|b(c)+'') = None"
    by (simp add: ascii_def pcre_metacharacters_def)
  from ab have c8: "pattern_literals (sanitizedSource (ascii ''a|b(c)+'')) = Some (ascii ''a|b(c)+'')"
    by (rule conjunct2 [THEN conjunct1])
  have "\<not> occurs_in (map ascii_lower (ascii ''a|b(c)+'')) (map ascii_lower (ascii ''a''))"
    by (simp add: ascii_def ascii_lower_def)
  with ab [THEN conjunct2, THEN conjunct2]
  have c9: "\<not> regex_search utc_world (sanitizedSource (ascii ''a|b(c)+'')) (ascii ''a'')"
    by (simp add: fold)
  have "occurs_in (map ascii_lower (ascii ''a|b(c)+'')) (map ascii_lower (ascii ''xA|B(C)+y''))"
    by (simp add: ascii_def ascii_lower_def)
  with xy [THEN conjunct2, THEN conjunct2]
  have c10: "regex_search utc_world (sanitizedSource (ascii ''a|b(c)+'')) (ascii ''xA|B(C)+y'')"
    by (simp add: fold)
  from c0 c1 c2 c3 c4 c5 c6 c7 c8 c9 c10 show ?thesis
    by (intro conjI)
qed

section \<open>The search handler\<close>

lemma regex_search_sanitized:
  "regex_search w (sanitizedSource source) subject =
     occurs_in (map (regex_fold w) source) (map (regex_fold w) subject)"
  by (simp add: sanitizedSource_def replace_class_global_escape pattern_literals_escaped
      regex_search_def)

lemma field_sendResponse_search:
  "field (body (sendResponse w 200 [(''count'', c), (''data'', d)])) ''count'' = Some c"
  "field (body (sendResponse w 200 [(''count'', c), (''data'', d)])) ''data'' = Some d"
  "status (sendResponse w 200 kvs) = 200"
  by (simp_all add: sendResponse_def spread_def field_def)

lemma status_errorResponse: "status (errorResponse n msg) = n"
  by (simp add: errorResponse_def)

lemma search_handler_rejects:
  "falsy_query q \<or> \<not> typeof_string q \<Longrightarrow>
     search_handler w q = (errorResponse 400 ''Source query parameter is required'', [])"
  by (simp add: search_handler_def)

lemma search_handler_accepts:
  assumes "s \<noteq> []"
  shows "search_handler w (Some (QStr s)) =
     (sendResponse w 200
        [(''count'', JNum (int (length (fst (findBySource w (sanitizedSource s) []))))),
         (''data'', JArr (fst (findBySource w (sanitizedSource s) [])))],
      [StoreFindRegex (sanitizedSource s)])"
  using assms
  by (simp add: search_handler_def falsy_query_def typeof_string_def findBySource_def)

lemma findBySource_at_most_50: "length (fst (findBySource w pat tr)) \<le> 50"
  by (simp add: findBySource_def)

lemma search_handler_cases:
  "(falsy_query q \<or> \<not> typeof_string q) \<or> (\<exists>s. q = Some (QStr s) \<and> s \<noteq> [])"
  by (auto simp: falsy_query_def typeof_string_def split: option.splits query_value.splits)

text \<open>The documents of \<open>utc_world\<close> that the sanitized patterns of three searches select.\<close>

lemma utc_world_fold: "regex_fold utc_world = ascii_lower"
  by (simp add: utc_world_def)

lemma utc_world_source_matches:
  "source_matches utc_world (sanitizedSource s) quote_a =
     occurs_in (map ascii_lower s) (map ascii_lower (ascii ''Bhagavad Gita''))"
  "source_matches utc_world (sanitizedSource s) quote_b =
     occurs_in (map ascii_lower s) (map ascii_lower (ascii ''Notes on gita.* (draft)''))"
  by (simp_all add: source_matches_def quote_a_def quote_b_def regex_search_sanitized
      utc_world_fold)

lemma utc_world_find_gita:
  "fst (findBySource utc_world (sanitizedSource (ascii ''gita'')) []) =
     [lean (select_minus_v quote_a), lean (select_minus_v quote_b)]"
proof -
  have "occurs_in (map ascii_lower (ascii ''gita'')) (map ascii_lower (ascii ''Bhagavad Gita''))"
    by (simp add: ascii_def ascii_lower_def)
  moreover have "occurs_in (map ascii_lower (ascii ''gita''))
      (map ascii_lower (ascii ''Notes on gita.* (draft)''))"
    by (simp add: ascii_def ascii_lower_def)
  moreover have "collection utc_world = [quote_a, quote_b]"
    by (simp add: utc_world_def)
  ultimately show ?thesis
    by (simp add: findBySource_def utc_world_source_matches)
qed

lemma utc_world_find_upanishad:
  "fst (findBySource utc_world (sanitizedSource (ascii ''Upanishad'')) []) = []"
proof -
  have "\<not> occurs_in (map ascii_lower (ascii ''Upanishad'')) (map ascii_lower (ascii ''Bhagavad Gita''))"
    by (simp add: ascii_def ascii_lower_def)
  moreover have "\<not> occurs_in (map ascii_lower (ascii ''Upanishad''))
      (map ascii_lower (ascii ''Notes on gita.* (draft)''))"
    by (simp add: ascii_def ascii_lower_def)
  moreover have "collection utc_world = [quote_a, quote_b]"
    by (simp add: utc_world_def)
  ultimately show ?thesis
    by (simp add: findBySource_def utc_world_source_matches)
qed

lemma ascii_nonempty: "ascii (c # cs) \<noteq> []"
  by (simp add: ascii_def)

text \<open>
  C9. When the \<^verbatim>\<open>source\<close> parameter is present but is the empty string, which is a
  string value, the handler answers 400 with the error
  \<^verbatim>\<open>Source query parameter is required\<close>, and it issues no store query.
\<close>

theorem search_empty_source_rejected:
  "typeof_string (Some (QStr []))
   \<and> search_handler w (Some (QStr [])) =
       (\<lparr>status = 400,
         body = JObj [(''success'', JBool False),
                      (''error'', JStr (ascii ''Source query parameter is required''))]\<rparr>,
        [])"
  by (simp add: search_handler_def falsy_query_def typeof_string_def errorResponse_def)

theorem search_empty_source_rejected_witness:
  "status (fst (search_handler utc_world (Some (QStr [])))) = 400
   \<and> field (body (fst (search_handler utc_world (Some (QStr []))))) ''error''
       = Some (JStr (ascii ''Source query parameter is required''))
   \<and> snd (search_handler utc_world (Some (QStr []))) = []"
  using search_empty_source_rejected [of utc_world]
  by (simp add: field_def)

text \<open>
  C10. In every 200 response of the search handler, \<^verbatim>\<open>data\<close> is an array, \<^verbatim>\<open>count\<close> is
  the number of its elements, and that number is at most 50.
\<close>

theorem search_count_is_length:
  "status (fst (search_handler w q)) = 200 \<longrightarrow>
     (\<exists>quotes. field (body (fst (search_handler w q))) ''data'' = Some (JArr quotes)
        \<and> field (body (fst (search_handler w q))) ''count'' = Some (JNum (int (length quotes)))
        \<and> length quotes \<le> 50)"
proof
  assume ok: "status (fst (search_handler w q)) = 200"
  from search_handler_cases [of q] show "\<exists>quotes.
      field (body (fst (search_handler w q))) ''data'' = Some (JArr quotes)
      \<and> field (body (fst (search_handler w q))) ''count'' = Some (JNum (int (length quotes)))
      \<and> length quotes \<le> 50"
  proof
    assume "falsy_query q \<or> \<not> typeof_string q"
    then have "status (fst (search_handler w q)) = 400"
      by (simp add: search_handler_rejects status_errorResponse)
    with ok show ?thesis by simp
  next
    assume "\<exists>s. q = Some (QStr s) \<and> s \<noteq> []"
    then obtain s where q: "q = Some (QStr s)" and s: "s \<noteq> []"
      by blast
    show ?thesis
      unfolding q search_handler_accepts [OF s]
      by (intro exI [of _ "fst (findBySource w (sanitizedSource s) [])"])
        (simp add: field_sendResponse_search findBySource_at_most_50)
  qed
qed

theorem search_count_is_length_witness:
  "status (fst (search_handler utc_world (Some (QStr (ascii ''gita''))))) = 200
   \<and> (\<exists>quotes.
        field (body (fst (search_handler utc_world (Some (QStr (ascii ''gita'')))))) ''data''
          = Some (JArr quotes)
        \<and> field (body (fst (search_handler utc_world (Some (QStr (ascii ''gita'')))))) ''count''
          = Some (JNum (int (length quotes)))
        \<and> length quotes \<le> 50)
   \<and> field (body (fst (search_handler utc_world (Some (QStr (ascii ''gita'')))))) ''count''
       = Some (JNum 2)"
proof -
  have ne: "ascii ''gita'' \<noteq> []"
    by (rule ascii_nonempty)
  have st: "status (fst (search_handler utc_world (Some (QStr (ascii ''gita''))))) = 200"
    by (simp add: search_handler_accepts [OF ne] field_sendResponse_search)
  have ct: "field (body (fst (search_handler utc_world (Some (QStr (ascii ''gita'')))))) ''count''
       = Some (JNum 2)"
    by (simp add: search_handler_accepts [OF ne] field_sendResponse_search utc_world_find_gita)
  from search_count_is_length [of utc_world "Some (QStr (ascii ''gita''))"] st ct
  show ?thesis
    by blast
qed

text \<open>
  C7, as stated: "if \<^verbatim>\<open>source\<close> is missing or not a string the response is 400; otherwise,
  for every string value, it is 200". The empty string is a string value and is answered
  with 400.
\<close>

theorem search_every_string_accepted_counterexample:
  "typeof_string (Some (QStr []))
   \<and> status (fst (search_handler utc_world (Some (QStr [])))) \<noteq> 200"
  by (simp add: search_handler_def falsy_query_def typeof_string_def errorResponse_def)

text \<open>
  C7, amended. If the \<^verbatim>\<open>source\<close> parameter is missing, is not a string, or is the empty
  string, the response is 400. For every non-empty string the response is 200 and carries
  a \<^verbatim>\<open>count\<close> and an array \<^verbatim>\<open>data\<close> of the matching records, the first fifty at most; an
  empty array is a 200 like any other.
\<close>

theorem search_handler_outcomes:
  "(falsy_query q \<or> \<not> typeof_string q \<longrightarrow>
      status (fst (search_handler w q)) = 400 \<and> snd (search_handler w q) = [])
   \<and> (\<forall>s. q = Some (QStr s) \<and> s \<noteq> [] \<longrightarrow>
        status (fst (search_handler w q)) = 200
        \<and> field (body (fst (search_handler w q))) ''data''
            = Some (JArr (map (lean \<circ> select_minus_v)
                (take 50 (filter (source_matches w (sanitizedSource s)) (collection w)))))
        \<and> field (body (fst (search_handler w q))) ''count''
            = Some (JNum (int (length
                (take 50 (filter (source_matches w (sanitizedSource s)) (collection w))))))
        \<and> length (take 50 (filter (source_matches w (sanitizedSource s)) (collection w))) \<le> 50)"
proof (intro conjI impI allI)
  assume "falsy_query q \<or> \<not> typeof_string q"
  then show "status (fst (search_handler w q)) = 400" "snd (search_handler w q) = []"
    by (simp_all add: search_handler_rejects status_errorResponse)
next
  fix s
  assume "q = Some (QStr s) \<and> s \<noteq> []"
  then have q: "q = Some (QStr s)" and s: "s \<noteq> []"
    by simp_all
  show "status (fst (search_handler w q)) = 200"
    unfolding q search_handler_accepts [OF s] by (simp add: field_sendResponse_search)
  show "field (body (fst (search_handler w q))) ''data''
      = Some (JArr (map (lean \<circ> select_minus_v)
          (take 50 (filter (source_matches w (sanitizedSource s)) (collection w)))))"
    unfolding q search_handler_accepts [OF s]
    by (simp add: field_sendResponse_search findBySource_def)
  show "field (body (fst (search_handler w q))) ''count''
      = Some (JNum (int (length
          (take 50 (filter (source_matches w (sanitizedSource s)) (collection w))))))"
    unfolding q search_handler_accepts [OF s]
    by (simp add: field_sendResponse_search findBySource_def)
  show "length (take 50 (filter (source_matches w (sanitizedSource s)) (collection w))) \<le> 50"
    by simp
qed

text \<open>
  In \<open>utc_world\<close>: a missing parameter and an array are answered with 400; the search for
  \<^verbatim>\<open>Upanishad\<close>, which matches nothing, with 200, a count of 0 and an empty array. In a
  store where sixty records match \<^verbatim>\<open>gita\<close>, the response carries fifty.
\<close>

theorem search_handler_outcomes_witness:
  "status (fst (search_handler utc_world None)) = 400
   \<and> status (fst (search_handler utc_world (Some (QArr [QStr (ascii ''gita'')])))) = 400
   \<and> status (fst (search_handler utc_world (Some (QStr (ascii ''Upanishad''))))) = 200
   \<and> field (body (fst (search_handler utc_world (Some (QStr (ascii ''Upanishad'')))))) ''data''
       = Some (JArr [])
   \<and> field (body (fst (search_handler utc_world (Some (QStr (ascii ''Upanishad'')))))) ''count''
       = Some (JNum 0)
   \<and> field (body (fst (search_handler crowded_world (Some (QStr (ascii ''gita'')))))) ''count''
       = Some (JNum 50)"
proof -
  have ne: "ascii ''Upanishad'' \<noteq> []" and ng: "ascii ''gita'' \<noteq> []"
    by (rule ascii_nonempty)+
  have "source_matches crowded_world (sanitizedSource (ascii ''gita'')) quote_a"
    by (simp add: source_matches_def quote_a_def regex_search_sanitized crowded_world_def
        utc_world_def ascii_def ascii_lower_def)
  then have many: "take 50 (filter (source_matches crowded_world (sanitizedSource (ascii ''gita'')))
      (collection crowded_world)) = replicate 50 quote_a"
    by (simp add: crowded_world_def)
  from search_handler_outcomes [of "Some (QStr (ascii ''gita''))" crowded_world] ng
  have d: "field (body (fst (search_handler crowded_world (Some (QStr (ascii ''gita'')))))) ''count''
      = Some (JNum (int (length
          (take 50 (filter (source_matches crowded_world (sanitizedSource (ascii ''gita'')))
             (collection crowded_world))))))"
    by blast
  have none: "take 50 (filter (source_matches utc_world (sanitizedSource (ascii ''Upanishad'')))
      (collection utc_world)) = []"
    using utc_world_find_upanishad by (simp add: findBySource_def)
  have "falsy_query None \<or> \<not> typeof_string None"
    by (simp add: falsy_query_def)
  with search_handler_outcomes [of None utc_world]
  have a: "status (fst (search_handler utc_world None)) = 400"
    by blast
  have "falsy_query (Some (QArr [QStr (ascii ''gita'')]))
      \<or> \<not> typeof_string (Some (QArr [QStr (ascii ''gita'')]))"
    by (simp add: typeof_string_def)
  with search_handler_outcomes [of "Some (QArr [QStr (ascii ''gita'')])" utc_world]
  have b: "status (fst (search_handler utc_world (Some (QArr [QStr (ascii ''gita'')])))) = 400"
    by blast
  from search_handler_outcomes [of "Some (QStr (ascii ''Upanishad''))" utc_world] ne
  have c: "status (fst (search_handler utc_world (Some (QStr (ascii ''Upanishad''))))) = 200
     \<and> field (body (fst (search_handler utc_world (Some (QStr (ascii ''Upanishad'')))))) ''data''
         = Some (JArr (map (lean \<circ> select_minus_v)
             (take 50 (filter (source_matches utc_world (sanitizedSource (ascii ''Upanishad'')))
                (collection utc_world)))))
     \<and> field (body (fst (search_handler utc_world (Some (QStr (ascii ''Upanishad'')))))) ''count''
         = Some (JNum (int (length
             (take 50 (filter (source_matches utc_world (sanitizedSource (ascii ''Upanishad'')))
                (collection utc_world))))))"
    by blast
  from a b c d show ?thesis
    unfolding none many by simp
qed

section \<open>The lookup by identifier\<close>

lemma first_match_find:
  "(case filter P xs of [] \<Rightarrow> a | d # _ \<Rightarrow> f d) = (case find P xs of None \<Rightarrow> a | Some d \<Rightarrow> f d)"
  by (induction xs) simp_all

lemma lean_not_null: "lean d \<noteq> JNull"
  by (simp add: lean_def)

text \<open>
  C6. For every id path parameter: if the id is not a syntactically valid store identifier
  the response is 400 with \<^verbatim>\<open>{success: false, error: "Invalid quote ID format"}\<close>, and no
  store query has been made; if it is valid and no record has that identifier the response
  is 404 with \<^verbatim>\<open>{success: false, error: "Quote not found"}\<close>; if a record has it, the
  response is 200 with \<^verbatim>\<open>{success: true, timestamp, data}\<close> where \<^verbatim>\<open>data\<close> is that record,
  without its version key.
\<close>

theorem id_handler_outcomes:
  "(\<not> objectid_isValid w ident \<longrightarrow>
      id_handler w ident =
        (\<lparr>status = 400,
          body = JObj [(''success'', JBool False),
                       (''error'', JStr (ascii ''Invalid quote ID format''))]\<rparr>,
         []))
   \<and> (objectid_isValid w ident
        \<and> (\<forall>d \<in> set (collection w). map_of d ''_id'' \<noteq> Some (JOid (objectid_cast w ident))) \<longrightarrow>
      id_handler w ident =
        (\<lparr>status = 404,
          body = JObj [(''success'', JBool False),
                       (''error'', JStr (ascii ''Quote not found''))]\<rparr>,
         [StoreFindById ident]))
   \<and> (\<forall>d. objectid_isValid w ident
        \<and> find (\<lambda>d. map_of d ''_id'' = Some (JOid (objectid_cast w ident))) (collection w) = Some d \<longrightarrow>
      id_handler w ident =
        (\<lparr>status = 200,
          body = JObj [(''success'', JBool True),
                       (''timestamp'', JStr (iso_timestamp w)),
                       (''data'', JObj (AList.delete ''__v'' d))]\<rparr>,
         [StoreFindById ident]))"
proof (intro conjI impI allI)
  assume "\<not> objectid_isValid w ident"
  then show "id_handler w ident =
        (\<lparr>status = 400,
          body = JObj [(''success'', JBool False),
                       (''error'', JStr (ascii ''Invalid quote ID format''))]\<rparr>,
         [])"
    by (simp add: id_handler_def errorResponse_def)
next
  assume "objectid_isValid w ident
    \<and> (\<forall>d \<in> set (collection w). map_of d ''_id'' \<noteq> Some (JOid (objectid_cast w ident)))"
  then have v: "objectid_isValid w ident"
    and "find (\<lambda>d. map_of d ''_id'' = Some (JOid (objectid_cast w ident))) (collection w) = None"
    by (simp_all add: find_None_iff)
  then show "id_handler w ident =
        (\<lparr>status = 404,
          body = JObj [(''success'', JBool False),
                       (''error'', JStr (ascii ''Quote not found''))]\<rparr>,
         [StoreFindById ident])"
    by (simp add: id_handler_def findById_def first_match_find errorResponse_def)
next
  fix d
  assume "objectid_isValid w ident
    \<and> find (\<lambda>d. map_of d ''_id'' = Some (JOid (objectid_cast w ident))) (collection w) = Some d"
  then show "id_handler w ident =
        (\<lparr>status = 200,
          body = JObj [(''success'', JBool True),
                       (''timestamp'', JStr (iso_timestamp w)),
                       (''data'', JObj (AList.delete ''__v'' d))]\<rparr>,
         [StoreFindById ident])"
    by (simp add: id_handler_def findById_def first_match_find lean_not_null
        sendResponse_def spread_def lean_def select_minus_v_def)
qed

text \<open>
  In \<open>utc_world\<close>, where a valid identifier is 24 hexadecimal digits: \<^verbatim>\<open>123\<close> is answered
  with 400 and no store query, an identifier no quote has with 404, and the identifier of
  the second quote with 200 and that quote.
\<close>

theorem id_handler_outcomes_witness:
  "status (fst (id_handler utc_world (ascii ''123''))) = 400
   \<and> field (body (fst (id_handler utc_world (ascii ''123'')))) ''error''
       = Some (JStr (ascii ''Invalid quote ID format''))
   \<and> snd (id_handler utc_world (ascii ''123'')) = []
   \<and> status (fst (id_handler utc_world (ascii ''000000000000000000000003''))) = 404
   \<and> field (body (fst (id_handler utc_world (ascii ''000000000000000000000003'')))) ''error''
       = Some (JStr (ascii ''Quote not found''))
   \<and> snd (id_handler utc_world (ascii ''000000000000000000000003''))
       = [StoreFindById (ascii ''000000000000000000000003'')]
   \<and> status (fst (id_handler utc_world (ascii ''000000000000000000000002''))) = 200
   \<and> field (body (fst (id_handler utc_world (ascii ''000000000000000000000002'')))) ''success''
       = Some (JBool True)
   \<and> field (body (fst (id_handler utc_world (ascii ''000000000000000000000002'')))) ''data''
       = Some (JObj [(''_id'', JOid 2), (''sloka'', JStr (ascii ''B'')),
                     (''source'', JStr (ascii ''Notes on gita.* (draft)''))])"
proof -
  have coll: "collection utc_world = [quote_a, quote_b]"
    and valid: "objectid_isValid utc_world = hex24_isValid"
    and cast: "objectid_cast utc_world = hex_cast"
    by (simp_all add: utc_world_def)
  have ids: "map_of quote_a ''_id'' = Some (JOid 1)" "map_of quote_b ''_id'' = Some (JOid 2)"
    by (simp_all add: quote_a_def quote_b_def)
  have c2: "hex_cast (ascii ''000000000000000000000002'') = 2"
    and c3: "hex_cast (ascii ''000000000000000000000003'') = 3"
    by (simp_all add: hex_cast_def ascii_def hex_digit_def)
  have v2: "hex24_isValid (ascii ''000000000000000000000002'')"
    and v3: "hex24_isValid (ascii ''000000000000000000000003'')"
    and v1: "\<not> hex24_isValid (ascii ''123'')"
    by (simp_all add: hex24_isValid_def ascii_def hex_digit_def)
  note t1 = id_handler_outcomes [of utc_world "ascii ''123''"]
  note t2 = id_handler_outcomes [of utc_world "ascii ''000000000000000000000002''"]
  note t3 = id_handler_outcomes [of utc_world "ascii ''000000000000000000000003''"]
  from t1 v1 have a: "id_handler utc_world (ascii ''123'')
      = (\<lparr>status = 400,
          body = JObj [(''success'', JBool False),
                       (''error'', JStr (ascii ''Invalid quote ID format''))]\<rparr>,
         [])"
    by (simp add: valid)
  from t3 v3 have b: "id_handler utc_world (ascii ''000000000000000000000003'')
      = (\<lparr>status = 404,
          body = JObj [(''success'', JBool False),
                       (''error'', JStr (ascii ''Quote not found''))]\<rparr>,
         [StoreFindById (ascii ''000000000000000000000003'')])"
    by (simp add: valid cast coll ids c3)
  have "find (\<lambda>d. map_of d ''_id'' = Some (JOid (objectid_cast utc_world (ascii ''000000000000000000000002''))))
          (collection utc_world) = Some quote_b"
    by (simp add: cast coll ids c2)
  with t2 v2 have c: "id_handler utc_world (ascii ''000000000000000000000002'')
      = (\<lparr>status = 200,
          body = JObj [(''success'', JBool True),
                       (''timestamp'', JStr (iso_timestamp utc_world)),
                       (''data'', JObj (AList.delete ''__v'' quote_b))]\<rparr>,
         [StoreFindById (ascii ''000000000000000000000002'')])"
    by (simp add: valid)
  from a have a1: "status (fst (id_handler utc_world (ascii ''123''))) = 400"
    and a2: "field (body (fst (id_handler utc_world (ascii ''123'')))) ''error''
       = Some (JStr (ascii ''Invalid quote ID format''))"
    and a3: "snd (id_handler utc_world (ascii ''123'')) = []"
    by (simp_all add: field_def)
  from b have b1: "status (fst (id_handler utc_world (ascii ''000000000000000000000003''))) = 404"
    and b2: "field (body (fst (id_handler utc_world (ascii ''000000000000000000000003'')))) ''error''
       = Some (JStr (ascii ''Quote not found''))"
    and b3: "snd (id_handler utc_world (ascii ''000000000000000000000003''))
       = [StoreFindById (ascii ''000000000000000000000003'')]"
    by (simp_all add: field_def)
  from c have c1: "status (fst (id_handler utc_world (ascii ''000000000000000000000002''))) = 200"
    and c2': "field (body (fst (id_handler utc_world (ascii ''000000000000000000000002'')))) ''success''
       = Some (JBool True)"
    and c3': "field (body (fst (id_handler utc_world (ascii ''000000000000000000000002'')))) ''data''
       = Some (JObj [(''_id'', JOid 2), (''sloka'', JStr (ascii ''B'')),
                     (''source'', JStr (ascii ''Notes on gita.* (draft)''))])"
    by (simp_all add: field_def quote_b_def)
  from a1 a2 a3 b1 b2 b3 c1 c2' c3' show ?thesis
    by (intro conjI)
qed

section \<open>The shape of a returned record\<close>

lemma map_of_select_minus_v:
  "map_of (select_minus_v d) k = (if k = ''__v'' then None else map_of d k)"
  by (induction d) (auto simp: select_minus_v_def)

text \<open>
  What every handler hands to the response is \<open>lean (select_minus_v d)\<close> for a stored
  document \<open>d\<close>: the version key is gone, and every other property is the stored one, under
  its stored name. The identifier stays under \<^verbatim>\<open>_id\<close>, and there is an \<^verbatim>\<open>id\<close> only if the
  stored document has a property of that name.
\<close>

lemma lean_record_fields:
  "field (lean (select_minus_v d)) ''__v'' = None"
  "field (lean (select_minus_v d)) ''_id'' = map_of d ''_id''"
  "field (lean (select_minus_v d)) ''id'' = map_of d ''id''"
  by (simp_all add: field_def lean_def map_of_select_minus_v)

text \<open>
  C8 (the code departs from it). The claim: every record returned by a read endpoint omits
  the version key and exposes its identifier as \<^verbatim>\<open>id\<close>, not as the raw \<^verbatim>\<open>_id\<close>. The schema's
  \<^verbatim>\<open>toJSON\<close> transform does that renaming, but every query of the handlers ends in
  \<^verbatim>\<open>.lean()\<close>, which bypasses the transform. Evaluated in \<open>utc_world\<close>: the record that
  \<^verbatim>\<open>GET /api/quote/random\<close> and \<^verbatim>\<open>GET /api/quote/:id\<close> return has no \<^verbatim>\<open>__v\<close>, has the
  identifier under \<^verbatim>\<open>_id\<close> and has no \<^verbatim>\<open>id\<close>, while the transform applied to the same
  stored document yields \<^verbatim>\<open>id\<close> and no \<^verbatim>\<open>_id\<close>.
\<close>

theorem lean_record_keeps_raw_identifier:
  "field (body (fst (random_handler utc_world))) ''data''
     = Some (JObj [(''_id'', JOid 2), (''sloka'', JStr (ascii ''B'')),
                   (''source'', JStr (ascii ''Notes on gita.* (draft)''))])
   \<and> field (body (fst (id_handler utc_world (ascii ''000000000000000000000002'')))) ''data''
     = Some (JObj [(''_id'', JOid 2), (''sloka'', JStr (ascii ''B'')),
                   (''source'', JStr (ascii ''Notes on gita.* (draft)''))])
   \<and> field (lean (select_minus_v quote_b)) ''__v'' = None
   \<and> field (lean (select_minus_v quote_b)) ''_id'' = Some (JOid 2)
   \<and> field (lean (select_minus_v quote_b)) ''id'' = None
   \<and> toJSON_transform quote_b
     = [(''sloka'', JStr (ascii ''B'')), (''source'', JStr (ascii ''Notes on gita.* (draft)'')),
        (''id'', JOid 2)]"
proof -
  have rec: "lean (select_minus_v quote_b)
      = JObj [(''_id'', JOid 2), (''sloka'', JStr (ascii ''B'')),
              (''source'', JStr (ascii ''Notes on gita.* (draft)''))]"
    by (simp add: lean_def select_minus_v_def quote_b_def)
  have "random_handler utc_world
      = (sendResponse utc_world 200 [(''data'', lean (select_minus_v quote_b))],
         [StoreCount, MathRandom, StoreFindOne 1])"
    by (simp add: random_handler_def utc_world_def countDocuments_def mathRandom_def
        js_times_def round53_def js_floor_def findOne_skip_def)
  then have a: "field (body (fst (random_handler utc_world))) ''data''
      = Some (lean (select_minus_v quote_b))"
    by (simp add: sendResponse_def spread_def field_def)
  have "hex_cast (ascii ''000000000000000000000002'') = 2"
    by (simp add: hex_cast_def ascii_def hex_digit_def)
  moreover have "hex24_isValid (ascii ''000000000000000000000002'')"
    by (simp add: hex24_isValid_def ascii_def hex_digit_def)
  moreover have "map_of quote_a ''_id'' = Some (JOid 1)" "map_of quote_b ''_id'' = Some (JOid 2)"
    by (simp_all add: quote_a_def quote_b_def)
  ultimately have "id_handler utc_world (ascii ''000000000000000000000002'')
      = (sendResponse utc_world 200 [(''data'', lean (select_minus_v quote_b))],
         [StoreFindById (ascii ''000000000000000000000002'')])"
    by (simp add: id_handler_def findById_def utc_world_def lean_not_null)
  then have b: "field (body (fst (id_handler utc_world (ascii ''000000000000000000000002'')))) ''data''
      = Some (lean (select_minus_v quote_b))"
    by (simp add: sendResponse_def spread_def field_def)
  have c: "field (lean (select_minus_v quote_b)) ''__v'' = None"
    "field (lean (select_minus_v quote_b)) ''_id'' = Some (JOid 2)"
    "field (lean (select_minus_v quote_b)) ''id'' = None"
    by (simp_all add: lean_record_fields quote_b_def)
  have d: "toJSON_transform quote_b
      = [(''sloka'', JStr (ascii ''B'')), (''source'', JStr (ascii ''Notes on gita.* (draft)'')),
         (''id'', JOid 2)]"
    by (simp add: toJSON_transform_def quote_b_def)
  from a b c d show ?thesis
    unfolding rec by (intro conjI)
qed

section \<open>The random offset\<close>

lemma bit_length_bounds: "0 < n \<Longrightarrow> 2 ^ (bit_length n - 1) \<le> n \<and> n < 2 ^ bit_length n"
proof (induction n rule: bit_length.induct)
  case (1 n)
  show ?case
  proof (cases "n div 2 = 0")
    case True
    with 1(2) have "n = 1" by (simp add: div_eq_0_iff) 
    then show ?thesis by (simp add: bit_length.simps)
  next
    case False
    then have pos: "0 < n div 2" by simp
    from 1(1) [OF _ pos] 1(2)
    have ih: "2 ^ (bit_length (n div 2) - 1) \<le> n div 2" "n div 2 < 2 ^ bit_length (n div 2)"
      by simp_all
    have bl: "bit_length n = Suc (bit_length (n div 2))"
      using 1(2) by (subst bit_length.simps) simp
    have blpos: "0 < bit_length (n div 2)"
      using pos by (subst bit_length.simps) simp
    have "2 ^ (bit_length n - 1) = 2 * 2 ^ (bit_length (n div 2) - 1)"
      using blpos bl by (cases "bit_length (n div 2)") simp_all
    also have "\<dots> \<le> 2 * (n div 2)" using ih(1) by simp
    also have "\<dots> \<le> n" by simp
    finally have a: "2 ^ (bit_length n - 1) \<le> n" .
    have "n < 2 * (n div 2) + 2" by presburger
    also have "\<dots> \<le> 2 * 2 ^ bit_length (n div 2)" using ih(2) by simp
    finally have b: "n < 2 ^ bit_length n" using bl by simp
    from a b show ?thesis by simp
  qed
qed

lemma round53_error:
  assumes "round53 P = (q, s)"
  shows "q * 2 ^ s * 2 ^ 53 \<le> P * (2 ^ 53 + 1)"
proof (cases "P < 2 ^ 53")
  case True
  with assms have "q = P" "s = 0" by (simp_all add: round53_def)
  then show ?thesis by (simp add: algebra_simps)
next
  case False
  define L where "L = bit_length P"
  have Ppos: "0 < P" using False by (cases "P = 0") simp_all
  from bit_length_bounds [OF Ppos] have lo: "2 ^ (L - 1) \<le> P" and hi: "P < 2 ^ L"
    by (simp_all add: L_def)
  have L54: "54 \<le> L"
  proof (rule ccontr)
    assume "\<not> 54 \<le> L"
    then have "L \<le> 53" by simp
    then have "(2::nat) ^ L \<le> 2 ^ 53" by (rule power_increasing) simp
    with hi False show False by simp
  qed
  have s: "s = L - 53" using assms False by (simp add: round53_def L_def Let_def split: if_splits)
  have spos: "0 < s" using s L54 by simp
  define h where "h = (2::nat) ^ (s - 1)"
  have twoh: "2 ^ s = 2 * h" using spos by (cases s) (simp_all add: h_def)
  have q: "q = (if P mod 2 ^ s < h \<or> (P mod 2 ^ s = h \<and> even (P div 2 ^ s)) then P div 2 ^ s else P div 2 ^ s + 1)"
    using assms False by (simp add: round53_def L_def Let_def h_def s split: if_splits)
  have dm: "P = (P div 2 ^ s) * 2 ^ s + P mod 2 ^ s" by (rule div_mult_mod_eq [symmetric])
  have v: "q * 2 ^ s \<le> P + h"
  proof (cases "P mod 2 ^ s < h \<or> (P mod 2 ^ s = h \<and> even (P div 2 ^ s))")
    case True
    then have "q = P div 2 ^ s" using q by simp
    then have "q * 2 ^ s \<le> P" by simp
    then show ?thesis by simp
  next
    case False
    then have qq: "q = P div 2 ^ s + 1" and r: "h \<le> P mod 2 ^ s" using q by auto
    have "q * 2 ^ s = (P div 2 ^ s) * 2 ^ s + 2 * h" using qq twoh by (simp add: algebra_simps)
    also have "\<dots> \<le> (P div 2 ^ s) * 2 ^ s + P mod 2 ^ s + h" using r by simp
    also have "\<dots> = P + h" using dm by simp
    finally show ?thesis .
  qed
  have "h * 2 ^ 53 = 2 ^ (s - 1 + 53)" by (simp add: h_def power_add)
  also have "s - 1 + 53 = L - 1" using s L54 by simp
  finally have hP: "h * 2 ^ 53 \<le> P" using lo by simp
  have "q * 2 ^ s * 2 ^ 53 \<le> (P + h) * 2 ^ 53" using v by simp
  also have "\<dots> = P * 2 ^ 53 + h * 2 ^ 53" by (simp add: algebra_simps)
  also have "\<dots> \<le> P * 2 ^ 53 + P" using hP by simp
  also have "\<dots> = P * (2 ^ 53 + 1)" by (simp add: algebra_simps)
  finally show ?thesis .
qed

lemma js_floor_times_less:
  assumes dbl: "significand d < 2 ^ 53"
    and lt1: "double_val d < 1"
    and cpos: "0 < count"
  shows "js_floor (js_times d count) < count"
proof -
  define m where "m = significand d"
  define e where "e = exponent d"
  obtain q s where r: "round53 (m * count) = (q, s)"
    by (cases "round53 (m * count)")
  have jt: "js_times d count = \<lparr>significand = q, exponent = e + int s\<rparr>"
    by (simp add: js_times_def r m_def [symmetric] e_def)
  note err = round53_error [OF r]
  show ?thesis
  proof (cases "m = 0")
    case True
    then have "q = 0"
      using r by (simp add: round53_def)
    then show ?thesis
      using cpos by (simp add: jt js_floor_def)
  next
    case False
    then have mpos: "0 < m" by simp
    have eneg: "e < 0"
    proof (rule ccontr)
      assume "\<not> e < 0"
      then have "pow2 e \<ge> 1" by (simp add: pow2_def)
      moreover have "(1::rat) \<le> of_nat m" using mpos by simp
      ultimately have "1 * 1 \<le> of_nat m * pow2 e"
        by (intro mult_mono) simp_all
      with lt1 show False by (simp add: double_val_def m_def e_def)
    qed
    define t where "t = nat (- e)"
    have tpos: "0 < t" and et: "e = - int t" using eneg by (simp_all add: t_def)
    have "of_nat m * (1 / 2 ^ t) < (1::rat)"
      using lt1 eneg by (simp add: double_val_def m_def e_def pow2_def t_def)
    then have "(of_nat m :: rat) < 2 ^ t"
      by (simp add: field_simps)
    then have "(of_nat m :: rat) < of_nat (2 ^ t)" by simp
    then have mt: "m < 2 ^ t" by (simp only: of_nat_less_iff)
    have m53: "m < 2 ^ 53" using dbl by (simp add: m_def)
    have key: "m * (2 ^ 53 + 1) < 2 ^ (t + 53)"
    proof (cases "t \<le> 53")
      case True
      then have "(2::nat) ^ t \<le> 2 ^ 53" by (intro power_increasing) simp_all
      have "m + 1 \<le> 2 ^ t" using mt by simp
      then have "(m + 1) * 2 ^ 53 \<le> 2 ^ t * 2 ^ 53" by (rule mult_le_mono1)
      then have "m * 2 ^ 53 + 2 ^ 53 \<le> 2 ^ (t + 53)" by (simp add: power_add algebra_simps)
      moreover have "m < 2 ^ 53" by (rule m53)
      ultimately show ?thesis by (simp add: algebra_simps)
    next
      case False
      then have "54 \<le> t" by simp
      then have "(2::nat) ^ (54 + 53) \<le> 2 ^ (t + 53)" by (intro power_increasing) simp_all
      moreover have "m * (2 ^ 53 + 1) < 2 ^ 53 * (2 ^ 53 + 1)" using m53 by simp
      moreover have "(2::nat) ^ 53 * (2 ^ 53 + 1) \<le> 2 ^ (54 + 53)" by simp
      ultimately show ?thesis by linarith
    qed
    have "q * 2 ^ s * 2 ^ 53 \<le> m * count * (2 ^ 53 + 1)" by (rule err)
    also have "\<dots> = count * (m * (2 ^ 53 + 1))" by (simp add: algebra_simps)
    also have "\<dots> < count * 2 ^ (t + 53)" using key cpos by simp
    also have "\<dots> = count * 2 ^ t * 2 ^ 53" by (simp add: power_add)
    finally have V: "q * 2 ^ s < count * 2 ^ t" by simp
    show ?thesis
    proof (cases "t \<le> s")
      case True
      then have ex: "0 \<le> e + int s" "nat (e + int s) = s - t" using et by simp_all
      have "2 ^ s = (2::nat) ^ (s - t) * 2 ^ t" using True by (simp add: power_add [symmetric])
      with V have "q * 2 ^ (s - t) * 2 ^ t < count * 2 ^ t" by (simp add: algebra_simps)
      then have "q * 2 ^ (s - t) < count" by simp
      then show ?thesis using ex by (simp add: jt js_floor_def)
    next
      case False
      then have ex: "\<not> 0 \<le> e + int s" "nat (- (e + int s)) = t - s" using et by simp_all
      have "2 ^ t = (2::nat) ^ (t - s) * 2 ^ s" using False by (simp add: power_add [symmetric])
      with V have "q * 2 ^ s < count * 2 ^ (t - s) * 2 ^ s" by (simp add: algebra_simps)
      then have "q < count * 2 ^ (t - s)" by simp
      then have "q div 2 ^ (t - s) < count"
        by (simp add: less_mult_imp_div_less)
      then show ?thesis using ex by (simp add: jt js_floor_def)
    qed
  qed
qed

lemma findOne_skip_in_range:
  "n < length (collection w) \<Longrightarrow>
     findOne_skip w (int n) tr =
       (Inr (lean (select_minus_v (collection w ! n))), tr @ [StoreFindOne (int n)])"
  by (simp add: findOne_skip_def Cons_nth_drop_Suc [symmetric])

lemma bit_length_numeral:
  "bit_length 0 = 0"
  "bit_length (Suc 0) = 1"
  "bit_length (numeral k) = Suc (bit_length (numeral k div 2))"
  by (subst bit_length.simps, simp add: bit_length.simps [of 0])+

text \<open>
  C2. If the store holds no record, the handler answers 404 with
  \<^verbatim>\<open>{success: false, error: "No quotes found in database"}\<close> after the count alone: no random
  number is drawn and no offset computed. If it holds \<open>count > 0\<close> records, then for every
  double that \<^verbatim>\<open>Math.random()\<close> can return (a double in \<open>[0, 1)\<close>) the offset
  \<^verbatim>\<open>Math.floor(Math.random() * count)\<close>, with the product rounded as IEEE arithmetic rounds
  it, is below \<open>count\<close>, and the handler answers with status 200 and the body
  \<^verbatim>\<open>{success: true, timestamp, data}\<close> where \<^verbatim>\<open>data\<close> is the record at that offset, without
  its version key.
\<close>

theorem random_handler_outcomes:
  "(collection w = [] \<longrightarrow>
      random_handler w =
        (\<lparr>status = 404,
          body = JObj [(''success'', JBool False),
                       (''error'', JStr (ascii ''No quotes found in database''))]\<rparr>,
         [StoreCount]))
   \<and> (collection w \<noteq> [] \<and> is_double (math_random w) \<and> double_val (math_random w) < 1 \<longrightarrow>
        js_floor (js_times (math_random w) (length (collection w))) < length (collection w)
        \<and> random_handler w =
            (\<lparr>status = 200,
              body = JObj
                [(''success'', JBool True),
                 (''timestamp'', JStr (iso_timestamp w)),
                 (''data'', JObj (AList.delete ''__v''
                    (collection w ! js_floor (js_times (math_random w) (length (collection w))))))]\<rparr>,
             [StoreCount, MathRandom,
              StoreFindOne (int (js_floor (js_times (math_random w) (length (collection w)))))]))"
proof (intro conjI impI)
  assume "collection w = []"
  then show "random_handler w =
        (\<lparr>status = 404,
          body = JObj [(''success'', JBool False),
                       (''error'', JStr (ascii ''No quotes found in database''))]\<rparr>,
         [StoreCount])"
    by (simp add: random_handler_def countDocuments_def errorResponse_def)
next
  assume a: "collection w \<noteq> [] \<and> is_double (math_random w) \<and> double_val (math_random w) < 1"
  then have pos: "0 < length (collection w)"
    by simp
  from a have "significand (math_random w) < 2 ^ 53"
    by (simp add: is_double_def)
  with a pos show lt: "js_floor (js_times (math_random w) (length (collection w))) < length (collection w)"
    by (intro js_floor_times_less) simp_all
  from pos show "random_handler w =
            (\<lparr>status = 200,
              body = JObj
                [(''success'', JBool True),
                 (''timestamp'', JStr (iso_timestamp w)),
                 (''data'', JObj (AList.delete ''__v''
                    (collection w ! js_floor (js_times (math_random w) (length (collection w))))))]\<rparr>,
             [StoreCount, MathRandom,
              StoreFindOne (int (js_floor (js_times (math_random w) (length (collection w)))))])"
    by (simp add: random_handler_def countDocuments_def mathRandom_def
        findOne_skip_in_range [OF lt] sendResponse_def spread_def lean_def select_minus_v_def)
qed

text \<open>
  An empty store is answered with 404. With two records and the random number 0.75 the
  offset is 1 and the response is 200 with the second record. With three records and the
  largest double below 1 the exact product \<open>3 - 3 / 2^53\<close> is not a double; it is rounded,
  and the offset is 2.
\<close>

theorem random_handler_outcomes_witness:
  "status (fst (random_handler empty_world)) = 404
   \<and> snd (random_handler empty_world) = [StoreCount]
   \<and> js_floor (js_times (math_random utc_world) (length (collection utc_world))) = 1
   \<and> status (fst (random_handler utc_world)) = 200
   \<and> field (body (fst (random_handler utc_world))) ''success'' = Some (JBool True)
   \<and> field (body (fst (random_handler utc_world))) ''data''
       = Some (JObj [(''_id'', JOid 2), (''sloka'', JStr (ascii ''B'')),
                     (''source'', JStr (ascii ''Notes on gita.* (draft)''))])
   \<and> snd (random_handler utc_world) = [StoreCount, MathRandom, StoreFindOne 1]
   \<and> js_floor (js_times \<lparr>significand = 2 ^ 53 - 1, exponent = - 53\<rparr> 3) = 2"
proof -
  have e: "collection empty_world = []"
    by (simp add: empty_world_def)
  from random_handler_outcomes [of empty_world] e
  have 1: "status (fst (random_handler empty_world)) = 404"
    and 2: "snd (random_handler empty_world) = [StoreCount]"
    by simp_all
  have c: "collection utc_world = [quote_a, quote_b]"
    and r: "math_random utc_world = \<lparr>significand = 3, exponent = - 2\<rparr>"
    by (simp_all add: utc_world_def)
  have 3: "js_floor (js_times (math_random utc_world) (length (collection utc_world))) = 1"
    by (simp add: c r js_times_def round53_def js_floor_def)
  have "is_double (math_random utc_world)" "double_val (math_random utc_world) < 1"
    by (simp_all add: r is_double_def double_val_def pow2_def)
  with random_handler_outcomes [of utc_world] c
  have 4: "random_handler utc_world =
       (\<lparr>status = 200,
         body = JObj
           [(''success'', JBool True),
            (''timestamp'', JStr (iso_timestamp utc_world)),
            (''data'', JObj (AList.delete ''__v'' quote_b))]\<rparr>,
        [StoreCount, MathRandom, StoreFindOne 1])"
    unfolding 3 by simp
  have 5: "js_floor (js_times \<lparr>significand = 2 ^ 53 - 1, exponent = - 53\<rparr> 3) = 2"
    by (simp add: js_times_def round53_def js_floor_def bit_length_numeral Let_def)
  from 4 have 6: "status (fst (random_handler utc_world)) = 200"
    and 7: "field (body (fst (random_handler utc_world))) ''success'' = Some (JBool True)"
    and 8: "field (body (fst (random_handler utc_world))) ''data''
       = Some (JObj [(''_id'', JOid 2), (''sloka'', JStr (ascii ''B'')),
                     (''source'', JStr (ascii ''Notes on gita.* (draft)''))])"
    and 9: "snd (random_handler utc_world) = [StoreCount, MathRandom, StoreFindOne 1]"
    by (simp_all add: field_def quote_b_def)
  from 1 2 3 6 7 8 9 5 show ?thesis
    by (intro conjI)
qed

section \<open>The quote of the day\<close>

lemma div_succ:
  assumes k: "0 < k"
  shows "((a::int) + 1) div k = a div k + (if (a + 1) mod k = 0 then 1 else 0)"
proof -
  have 1: "a = k * (a div k) + a mod k" by simp
  have 2: "0 \<le> a mod k" "a mod k < k" using k by simp_all
  show ?thesis
  proof (cases "a mod k = k - 1")
    case True
    have "a + 1 = k * (a div k) + (a mod k + 1)" using 1 by linarith
    also have "\<dots> = k * (a div k) + k" using True by simp
    also have "\<dots> = k * (a div k + 1) + 0" by (simp add: algebra_simps)
    finally have e: "a + 1 = k * (a div k + 1) + 0" .
    have "(a + 1) div k = a div k + 1" by (rule int_div_pos_eq [OF e]) (use k in simp_all)
    moreover have "(a + 1) mod k = 0" by (rule int_mod_pos_eq [OF e]) (use k in simp_all)
    ultimately show ?thesis by simp
  next
    case False
    then have lt: "a mod k + 1 < k" using 2 by linarith
    have e: "a + 1 = k * (a div k) + (a mod k + 1)" using 1 by linarith
    have "(a + 1) div k = a div k" by (rule int_div_pos_eq [OF e]) (use lt 2 in simp_all)
    moreover have "(a + 1) mod k = a mod k + 1" by (rule int_mod_pos_eq [OF e]) (use lt 2 in simp_all)
    ultimately show ?thesis using 2 by simp
  qed
qed

lemma DayFromYear_succ:
  "DayFromYear (y + 1) = DayFromYear y + 365
     + (if (y - 1968) mod 4 = 0 then 1 else 0)
     - (if (y - 1900) mod 100 = 0 then 1 else 0)
     + (if (y - 1600) mod 400 = 0 then 1 else 0)"
proof -
  have a: "(y + 1 - 1969) div 4 = (y - 1969) div 4 + (if (y - 1968) mod 4 = 0 then 1 else 0)"
    using div_succ [of 4 "y - 1969"] by (simp add: algebra_simps)
  have b: "(y + 1 - 1901) div 100 = (y - 1901) div 100 + (if (y - 1900) mod 100 = 0 then 1 else 0)"
    using div_succ [of 100 "y - 1901"] by (simp add: algebra_simps)
  have c: "(y + 1 - 1601) div 400 = (y - 1601) div 400 + (if (y - 1600) mod 400 = 0 then 1 else 0)"
    using div_succ [of 400 "y - 1601"] by (simp add: algebra_simps)
  show ?thesis unfolding DayFromYear_def a b c by (simp add: algebra_simps)
qed

lemma mod_zero_coarser:
  assumes "(x::int) mod m = 0" and "k dvd m" and "k dvd c"
  shows "(x - c) mod k = 0"
proof -
  from assms(1) have "m dvd x"
    by (simp add: mod_eq_0_iff_dvd)
  with assms(2) have "k dvd x"
    by (rule dvd_trans)
  with assms(3) have "k dvd x - c"
    by (simp add: dvd_diff)
  then show ?thesis
    by (simp add: mod_eq_0_iff_dvd)
qed

lemma DayFromYear_step: "DayFromYear y + 365 \<le> DayFromYear (y + 1)"
proof -
  have "(y - 1968) mod 4 = 0" if "(y - 1900) mod 100 = 0"
    using mod_zero_coarser [OF that, of 4 68] by simp
  then show ?thesis
    unfolding DayFromYear_succ by simp
qed

lemma DayFromYear_step_le: "DayFromYear (y + 1) \<le> DayFromYear y + 366"
proof -
  have "(y - 1900) mod 100 = 0" if "(y - 1600) mod 400 = 0"
    using mod_zero_coarser [OF that, of 100 300] by simp
  then show ?thesis
    unfolding DayFromYear_succ by simp
qed

lemma DayFromYear_1970: "DayFromYear 1970 = 0"
  by (simp add: DayFromYear_def)

lemma DayFromYear_after: "DayFromYear (1970 + int n) \<le> 366 * int n"
proof (induction n)
  case 0
  then show ?case by (simp add: DayFromYear_1970)
next
  case (Suc n)
  have "DayFromYear (1970 + int (Suc n)) = DayFromYear (1970 + int n + 1)"
    by (simp add: algebra_simps)
  also have "\<dots> \<le> DayFromYear (1970 + int n) + 366" by (rule DayFromYear_step_le)
  finally show ?case using Suc by simp
qed

lemma DayFromYear_before: "DayFromYear (1970 - int n) \<le> - 365 * int n"
proof (induction n)
  case 0
  then show ?case by (simp add: DayFromYear_1970)
next
  case (Suc n)
  define y where "y = 1970 - int n - 1"
  have y1: "y + 1 = 1970 - int n" and y2: "1970 - int (Suc n) = y"
    by (simp_all add: y_def)
  have "DayFromYear y + 365 \<le> DayFromYear (y + 1)"
    by (rule DayFromYear_step)
  with Suc have "DayFromYear y \<le> - 365 * int n - 365"
    unfolding y1 by linarith
  also have "\<dots> = - 365 * int (Suc n)"
    by simp
  finally show ?case
    unfolding y2 .
qed

lemma mult_div_le_int:
  assumes "0 < b"
  shows "b * (a div b) \<le> (a::int)"
proof -
  have "b * (a div b) + a mod b = a"
    by (rule mult_div_mod_eq)
  moreover have "0 \<le> a mod b"
    using assms by simp
  ultimately show ?thesis
    by linarith
qed

lemma year_estimate: "DayFromYear (1970 + (if 0 \<le> d then d div 366 else d div 365)) \<le> d"
proof (cases "0 \<le> d")
  case True
  then have k: "0 \<le> d div 366" by (simp add: pos_imp_zdiv_nonneg_iff)
  have "DayFromYear (1970 + int (nat (d div 366))) \<le> 366 * int (nat (d div 366))"
    by (rule DayFromYear_after)
  with k have "DayFromYear (1970 + d div 366) \<le> 366 * (d div 366)" by simp
  also have "\<dots> \<le> d" by (rule mult_div_le_int) simp
  finally show ?thesis using True by simp
next
  case False
  then have k: "d div 365 < 0" by (simp add: div_neg_pos_less0)
  have "DayFromYear (1970 - int (nat (- (d div 365)))) \<le> - 365 * int (nat (- (d div 365)))"
    by (rule DayFromYear_before)
  with k have "DayFromYear (1970 + d div 365) \<le> 365 * (d div 365)" by simp
  also have "\<dots> \<le> d" by (rule mult_div_le_int) simp
  finally show ?thesis using False by simp
qed

lemma year_search_spec:
  "DayFromYear y \<le> d \<Longrightarrow>
     DayFromYear (year_search d y) \<le> d \<and> d < DayFromYear (year_search d y + 1)"
proof (induction d y rule: year_search.induct)
  case (1 d y)
  show ?case
  proof (cases "DayFromYear (y + 1) \<le> d")
    case True
    from 1(1) [OF True True] show ?thesis
      by (subst (1 2) year_search.simps) (simp add: True)
  next
    case False
    with 1(2) show ?thesis
      by (subst (1 2) year_search.simps) simp
  qed
qed

lemma YearFromTime_spec:
  "DayFromYear (YearFromTime t) \<le> Day t \<and> Day t < DayFromYear (YearFromTime t + 1)"
  unfolding YearFromTime_def Let_def by (rule year_search_spec) (rule year_estimate)

lemma ordinal_day_range: "1 \<le> ordinal_day w tv \<and> ordinal_day w tv \<le> 366"
proof -
  define L where "L = LocalTime w tv"
  from YearFromTime_spec [of L] DayFromYear_step_le [of "YearFromTime L"]
  show ?thesis
    unfolding ordinal_day_def L_def [symmetric] by linarith
qed

lemma DayFromYear_mono_nat: "DayFromYear y \<le> DayFromYear (y + int n)"
proof (induction n)
  case 0
  then show ?case by simp
next
  case (Suc n)
  define z where "z = y + int n"
  have e: "y + int (Suc n) = z + 1"
    by (simp add: z_def)
  have "DayFromYear z + 365 \<le> DayFromYear (z + 1)"
    by (rule DayFromYear_step)
  with Suc show ?case
    unfolding e z_def [symmetric] by linarith
qed

lemma DayFromYear_mono:
  assumes "y \<le> y'"
  shows "DayFromYear y \<le> DayFromYear y'"
proof -
  from assms have "y' = y + int (nat (y' - y))"
    by simp
  then show ?thesis
    using DayFromYear_mono_nat [of y "nat (y' - y)"] by simp
qed

text \<open>
  \<open>YearFromTime t\<close> is the largest year whose first instant is not after \<open>t\<close>, as
  ECMAScript defines it.
\<close>

lemma YearFromTime_largest:
  "TimeFromYear (YearFromTime t) \<le> t
   \<and> (\<forall>y. TimeFromYear y \<le> t \<longrightarrow> y \<le> YearFromTime t)"
proof (intro conjI allI impI)
  have "msPerDay * DayFromYear (YearFromTime t) \<le> msPerDay * Day t"
    using YearFromTime_spec [of t] by (simp add: msPerDay_def)
  also have "\<dots> \<le> t"
    unfolding Day_def by (rule mult_div_le_int) (simp add: msPerDay_def)
  finally show "TimeFromYear (YearFromTime t) \<le> t"
    by (simp add: TimeFromYear_def)
next
  fix y
  assume a: "TimeFromYear y \<le> t"
  show "y \<le> YearFromTime t"
  proof (rule ccontr)
    assume "\<not> y \<le> YearFromTime t"
    then have "YearFromTime t + 1 \<le> y"
      by simp
    then have "DayFromYear (YearFromTime t + 1) \<le> DayFromYear y"
      by (rule DayFromYear_mono)
    with YearFromTime_spec [of t] have "Day t + 1 \<le> DayFromYear y"
      by linarith
    then have "msPerDay * (Day t + 1) \<le> msPerDay * DayFromYear y"
      by (simp add: msPerDay_def)
    moreover have "t < msPerDay * (Day t + 1)"
    proof -
      have "msPerDay * (t div msPerDay) + t mod msPerDay = t"
        by (rule mult_div_mod_eq)
      moreover have "t mod msPerDay < msPerDay"
        by (simp add: msPerDay_def)
      moreover have "msPerDay * (Day t + 1) = msPerDay * (t div msPerDay) + msPerDay"
        by (simp add: Day_def algebra_simps)
      ultimately show ?thesis
        by linarith
    qed
    ultimately show False
      using a by (simp add: TimeFromYear_def)
  qed
qed

lemma div_shift:
  assumes "0 < k"
  shows "((a::int) - b * k) div k = a div k - b"
proof -
  have "k * (a div k) + a mod k = a"
    by (rule mult_div_mod_eq)
  then have e: "a - b * k = k * (a div k - b) + a mod k"
    by (simp add: algebra_simps)
  show ?thesis
    by (rule int_div_pos_eq [OF e]) (use assms in simp_all)
qed

text \<open>Where the offset of local time is the same now and at the epoch, the day is right.\<close>

lemma dayOfYear_now_same_offset:
  assumes yr: "\<not> (0 \<le> getFullYear w (now_utc w) \<and> getFullYear w (now_utc w) \<le> 99)"
    and off: "local_tza w (now_utc w) True
      = local_tza w ((DayFromYear (getFullYear w (now_utc w)) - 1) * msPerDay) False"
  shows "dayOfYear_now w = ordinal_day w (now_utc w)"
proof -
  define Y where "Y = getFullYear w (now_utc w)"
  define L where "L = LocalTime w (now_utc w)"
  have start: "new_Date_year_0_0 w Y
      = (DayFromYear Y - 1) * msPerDay - local_tza w ((DayFromYear Y - 1) * msPerDay) False"
    using yr by (auto simp: new_Date_year_0_0_def UTC_def Y_def Let_def)
  have "now_utc w - new_Date_year_0_0 w Y = L - (DayFromYear Y - 1) * msPerDay"
    unfolding start using off by (simp add: L_def LocalTime_def Y_def)
  then have "dayOfYear_now w = (L - (DayFromYear Y - 1) * msPerDay) div msPerDay"
    by (simp add: dayOfYear_now_def Y_def msPerDay_def)
  also have "\<dots> = L div msPerDay - (DayFromYear Y - 1)"
    by (rule div_shift) (simp add: msPerDay_def)
  finally show ?thesis
    by (simp add: ordinal_day_def Day_def L_def Y_def getFullYear_def)
qed

text \<open>On a host whose offset from UTC never changes, the handler's day is the ordinal day.\<close>

lemma dayOfYear_now_fixed_zone:
  assumes "\<And>t isUTC. local_tza w t isUTC = c"
    and "\<not> (0 \<le> getFullYear w (now_utc w) \<and> getFullYear w (now_utc w) \<le> 99)"
  shows "dayOfYear_now w = ordinal_day w (now_utc w)"
  by (rule dayOfYear_now_same_offset [OF assms(2)]) (simp add: assms(1))

lemma js_rem_nonneg: "0 \<le> a \<Longrightarrow> 0 < b \<Longrightarrow> js_rem a b = a mod b"
  by (cases "a = 0") (simp_all add: js_rem_def)

lemma daily_handler_empty:
  "collection w = [] \<Longrightarrow>
     daily_handler w = (errorResponse 404 ''No quotes found in database'', [StoreCount])"
  by (simp add: daily_handler_def countDocuments_def)

text \<open>
  With records in the store the response is 200; it carries \<^verbatim>\<open>dayOfYear\<close> and the record at
  the offset \<open>dayOfYear mod count\<close>.
\<close>

lemma daily_handler_nonempty:
  assumes "collection w \<noteq> []" and "0 \<le> dayOfYear_now w"
  shows "daily_handler w =
     (sendResponse w 200
        [(''data'', lean (select_minus_v
            (collection w ! nat (dayOfYear_now w mod int (length (collection w)))))),
         (''dayOfYear'', JNum (dayOfYear_now w))],
      [StoreCount, StoreFindOne (dayOfYear_now w mod int (length (collection w)))])"
proof -
  from assms(1) have pos: "0 < int (length (collection w))"
    by simp
  have rem: "js_rem (dayOfYear_now w) (int (length (collection w)))
      = dayOfYear_now w mod int (length (collection w))"
    by (rule js_rem_nonneg [OF assms(2) pos])
  have nn: "0 \<le> dayOfYear_now w mod int (length (collection w))"
    using pos by simp
  have "dayOfYear_now w mod int (length (collection w)) < int (length (collection w))"
    using pos by simp
  with nn have lt: "nat (dayOfYear_now w mod int (length (collection w))) < length (collection w)"
    by linarith
  from nn have idx: "int (nat (dayOfYear_now w mod int (length (collection w))))
      = dayOfYear_now w mod int (length (collection w))"
    by simp
  from assms(1) show ?thesis
    using findOne_skip_in_range [OF lt, of "[StoreCount]"]
    by (simp add: daily_handler_def countDocuments_def Let_def rem idx)
qed

lemma zone_examples:
  "dayOfYear_now cet_world = 181"
  "ordinal_day cet_world (now_utc cet_world) = 182"
  "dayOfYear_now cet_world_later = 182"
  "ordinal_day cet_world_later (now_utc cet_world_later) = 182"
  "dayOfYear_now utc_world = 181"
  "ordinal_day utc_world (now_utc utc_world) = 181"
  by code_simp+

text \<open>
  C3 (the code departs from it). The claim: with \<open>count > 0\<close> the offset is
  \<open>dayOfYear mod count\<close>, where \<open>dayOfYear\<close> is the 1-based ordinal day of the current date
  in its year, so that two evaluations on the same wall-clock date give the same offset.
  The handler divides the time elapsed since local midnight of the 31st of December by 24
  hours. On a host whose zone has daylight saving time that is one hour short in summer.
  Evaluated on such a host with two records: at 00:30 on 1 July 2025 (the 182nd day) the
  handler reports \<^verbatim>\<open>dayOfYear\<close> 181 and serves the record at offset 1; at 01:30 on the same
  date it reports 182 and serves the record at offset 0.
\<close>

theorem daily_handler_daylight_saving:
  "ordinal_day cet_world (now_utc cet_world) = 182
   \<and> ordinal_day cet_world_later (now_utc cet_world_later) = 182
   \<and> daily_handler cet_world =
       (sendResponse cet_world 200
          [(''data'', lean (select_minus_v quote_b)), (''dayOfYear'', JNum 181)],
        [StoreCount, StoreFindOne 1])
   \<and> daily_handler cet_world_later =
       (sendResponse cet_world_later 200
          [(''data'', lean (select_minus_v quote_a)), (''dayOfYear'', JNum 182)],
        [StoreCount, StoreFindOne 0])"
proof -
  have c: "collection cet_world = [quote_a, quote_b]"
    "collection cet_world_later = [quote_a, quote_b]"
    by (simp_all add: cet_world_def cet_world_later_def utc_world_def)
  have 1: "daily_handler cet_world =
       (sendResponse cet_world 200
          [(''data'', lean (select_minus_v quote_b)), (''dayOfYear'', JNum 181)],
        [StoreCount, StoreFindOne 1])"
    using daily_handler_nonempty [of cet_world] by (simp add: c zone_examples)
  have 2: "daily_handler cet_world_later =
       (sendResponse cet_world_later 200
          [(''data'', lean (select_minus_v quote_a)), (''dayOfYear'', JNum 182)],
        [StoreCount, StoreFindOne 0])"
    using daily_handler_nonempty [of cet_world_later] by (simp add: c zone_examples)
  from zone_examples(2,4) 1 2 show ?thesis
    by (intro conjI)
qed

section \<open>Pagination\<close>

subsection \<open>Integers as doubles\<close>

lemma to_double_small: "\<bar>n\<bar> < 2 ^ 53 \<Longrightarrow> to_double n = Num n"
proof -
  assume a: "\<bar>n\<bar> < 2 ^ 53"
  then have "nat \<bar>n\<bar> < 2 ^ 53"
    by (simp add: nat_less_iff)
  then have r: "round53 (nat \<bar>n\<bar>) = (nat \<bar>n\<bar>, 0)"
    by (simp add: round53_def)
  have "(2::nat) ^ 53 \<le> 2 ^ 1024"
    by (rule power_increasing) simp_all
  with \<open>nat \<bar>n\<bar> < 2 ^ 53\<close> have "\<not> 2 ^ 1024 \<le> nat \<bar>n\<bar>"
    by linarith
  moreover have "sgn n * \<bar>n\<bar> = n"
    by (simp add: mult_sgn_abs)
  ultimately show ?thesis
    by (simp add: to_double_def r)
qed



lemma round53_lower:
  assumes big: "2 ^ 53 \<le> P" and r: "round53 P = (q, s)"
  shows "2 ^ (bit_length P - 1) \<le> q * 2 ^ s"
proof -
  define L where "L = bit_length P"
  have Ppos: "0 < P"
    using big by (cases "P = 0") simp_all
  from bit_length_bounds [OF Ppos] have lo: "2 ^ (L - 1) \<le> P" and hi: "P < 2 ^ L"
    by (simp_all add: L_def)
  have L54: "54 \<le> L"
  proof (rule ccontr)
    assume "\<not> 54 \<le> L"
    then have "L \<le> 53" by simp
    then have "(2::nat) ^ L \<le> 2 ^ 53" by (rule power_increasing) simp
    with hi big show False by simp
  qed
  have nb: "\<not> P < 2 ^ 53"
    using big by simp
  have s: "s = L - 53"
    using r nb by (simp add: round53_def L_def Let_def split: if_splits)
  have q: "P div 2 ^ s \<le> q"
    using r nb by (auto simp: round53_def L_def Let_def split: if_splits)
  have "L - 1 = 52 + s"
    using s L54 by simp
  then have "(2::nat) ^ (L - 1) = 2 ^ 52 * 2 ^ s"
    by (simp add: power_add)
  with lo have "2 ^ 52 * 2 ^ s \<le> P"
    by simp
  then have "2 ^ 52 \<le> P div 2 ^ s"
    by (simp add: less_eq_div_iff_mult_less_eq)
  with q have "2 ^ 52 \<le> q"
    by simp
  then have "2 ^ 52 * 2 ^ s \<le> q * 2 ^ s"
    by (rule mult_le_mono1)
  with \<open>(2::nat) ^ (L - 1) = 2 ^ 52 * 2 ^ s\<close> show ?thesis
    by (simp add: L_def)
qed

lemma bit_length_ge:
  assumes "2 ^ k \<le> P"
  shows "k < bit_length P"
proof (rule ccontr)
  assume "\<not> k < bit_length P"
  then have "bit_length P \<le> k" by simp
  then have a: "(2::nat) ^ bit_length P \<le> 2 ^ k" by (rule power_increasing) simp
  have "0 < P" using assms by (cases "P = 0") simp_all
  from bit_length_bounds [OF this] have b: "P < 2 ^ bit_length P"
    by simp
  from a b assms show False
    by linarith
qed

lemma round53_ge:
  assumes "53 \<le> k" and big: "2 ^ k \<le> P" and r: "round53 P = (q, s)"
  shows "2 ^ k \<le> q * 2 ^ s"
proof -
  have "(2::nat) ^ 53 \<le> 2 ^ k"
    using assms(1) by (rule power_increasing) simp
  with big have b53: "2 ^ 53 \<le> P"
    by linarith
  from bit_length_ge [OF big] have "k \<le> bit_length P - 1"
    by simp
  then have "(2::nat) ^ k \<le> 2 ^ (bit_length P - 1)"
    by (rule power_increasing) simp
  also have "\<dots> \<le> q * 2 ^ s"
    by (rule round53_lower [OF b53 r])
  finally show ?thesis .
qed


lemma to_double_large:
  assumes "2 ^ 53 \<le> n"
  shows "to_double n = PosInf \<or> (\<exists>m. to_double n = Num m \<and> 2 ^ 53 \<le> m)"
proof -
  obtain q s where r: "round53 (nat \<bar>n\<bar>) = (q, s)"
    by (cases "round53 (nat \<bar>n\<bar>)")
  have "(0::int) < 2 ^ 53"
    by (rule zero_less_power) simp
  with assms have pos: "0 < n"
    by linarith
  have "int (2 ^ 53) \<le> int (nat \<bar>n\<bar>)"
    using assms pos by simp
  then have "(2::nat) ^ 53 \<le> nat \<bar>n\<bar>"
    by (simp only: of_nat_le_iff)
  from round53_ge [OF _ this r] have "2 ^ 53 \<le> q * 2 ^ s"
    by simp
  then have "int (2 ^ 53) \<le> int (q * 2 ^ s)"
    by (simp only: of_nat_le_iff)
  then have m: "(2::int) ^ 53 \<le> int (q * 2 ^ s)"
    by simp
  from pos have sg: "sgn n = 1" and nn: "\<not> n < 0"
    by simp_all
  show ?thesis
  proof (cases "2 ^ 1024 \<le> q * 2 ^ s")
    case True
    then have "to_double n = PosInf"
      unfolding to_double_def r using nn by (simp only: prod.case if_True if_False)
    then show ?thesis by simp
  next
    case False
    then have "to_double n = Num (sgn n * int (q * 2 ^ s))"
      unfolding to_double_def r by (simp only: prod.case if_False)
    with m sg show ?thesis
      by simp
  qed
qed

lemma js_less_to_double:
  assumes "0 \<le> x" and "t \<le> 2 ^ 53"
  shows "js_less (to_double x) (Num t) = (x < t)"
proof (cases "x < 2 ^ 53")
  case True
  with assms(1) have "to_double x = Num x"
    by (intro to_double_small) simp
  then show ?thesis by simp
next
  case False
  then have "2 ^ 53 \<le> x" by simp
  from to_double_large [OF this] assms(2) \<open>2 ^ 53 \<le> x\<close> show ?thesis
    by auto
qed

lemma page_closed_form:
  "Math_max (Num 1) (or_default x (Num 1))
     = (case x of NaN \<Rightarrow> Num 1 | Num v \<Rightarrow> Num (max 1 v) | PosInf \<Rightarrow> PosInf | NegInf \<Rightarrow> Num 1)"
  by (cases x) (auto simp: Math_max_def or_default_def)

lemma limit_closed_form:
  "Math_min (Num 50) (Math_max (Num 1) (or_default y (Num 10)))
     = (case y of NaN \<Rightarrow> Num 10 | Num v \<Rightarrow> Num (if v = 0 then 10 else min 50 (max 1 v))
        | PosInf \<Rightarrow> Num 50 | NegInf \<Rightarrow> Num 1)"
  by (cases y) (auto simp: Math_max_def Math_min_def or_default_def)

subsection \<open>Numerals\<close>














subsection \<open>What \<^verbatim>\<open>parseInt\<close> reads\<close>























subsection \<open>Page, limit and skip\<close>

lemma parseInt_query_absent: "parseInt_query None = Inr NaN"
  by (simp add: parseInt_query_def parseInt_def parseInt_trimmed_def ascii_def is_white_def
      digit_value_def)

lemma parseInt_query_string: "parseInt_query (Some (QStr s)) = Inr (parseInt s)"
  by (simp add: parseInt_query_def)

lemma parseInt_query_own_toString:
  "ascii ''toString'' \<in> fst ` set kvs \<Longrightarrow> parseInt_query (Some (QObj kvs)) = Inl type_error"
  by (simp add: parseInt_query_def)

lemma pagination_value:
  assumes "parseInt_query qpage = Inr x" and "parseInt_query qlimit = Inr y"
  shows "pagination qpage qlimit
     = Inr \<lparr>page = Math_max (Num 1) (or_default x (Num 1)),
            limit = Math_min (Num 50) (Math_max (Num 1) (or_default y (Num 10))),
            skip = js_mult (js_minus (Math_max (Num 1) (or_default x (Num 1))) (Num 1))
                     (Math_min (Num 50) (Math_max (Num 1) (or_default y (Num 10))))\<rparr>"
  using assms by (simp add: pagination_def Let_def)









lemma parseInt_examples:
  "parseInt (ascii ''12abc'') = Num 12"
  "parseInt (ascii ''0'') = Num 0"
  "parseInt (ascii ''1'') = Num 1"
  "parseInt (ascii ''500'') = Num 500"
  by (simp_all add: parseInt_def parseInt_trimmed_def ascii_def is_white_def digit_value_def
      radix_value_def to_double_small)




subsection \<open>The pagination block of the response\<close>

lemma list_handler_accepted:
  assumes "pagination qpage qlimit = Inr b" and "page_query_error w (skip b) (limit b) = None"
  shows "list_handler w qpage qlimit =
     (\<lparr>status = 200,
       body = JObj
         [(''success'', JBool True), (''timestamp'', JStr (iso_timestamp w)),
          (''data'', JArr (map (\<lambda>d. JObj (AList.delete ''__v'' d))
             (limit_documents (limit b) (skip_documents (skip b) (collection w))))),
          (''pagination'', JObj
             [(''currentPage'', json_number (page b)),
              (''totalPages'', totalPages_of (length (collection w)) (limit b)),
              (''totalItems'', JNum (int (length (collection w)))),
              (''itemsPerPage'', json_number (limit b)),
              (''hasNextPage'', JBool (js_less (js_mult (page b) (limit b))
                                         (Num (int (length (collection w)))))),
              (''hasPrevPage'', JBool (js_less (Num 1) (page b)))])]\<rparr>,
      [StoreFindPage (skip b) (limit b), StoreCount])"
  using assms
  by (simp add: list_handler_def findPage_def countDocuments_def sendResponse_def spread_def
      lean_def select_minus_v_def comp_def)

lemma list_handler_store_error:
  assumes "pagination qpage qlimit = Inr b" and "page_query_error w (skip b) (limit b) = Some err"
  shows "list_handler w qpage qlimit
     = (globalErrorHandler w err, [StoreFindPage (skip b) (limit b)])"
  using assms by (simp add: list_handler_def findPage_def)

text \<open>
  A page or limit that is an object with a property named \<^verbatim>\<open>toString\<close>
  (\<^verbatim>\<open>?page[toString]=x\<close>) makes \<^verbatim>\<open>parseInt\<close> throw: the answer is 500, before any store query.
\<close>

lemma list_handler_raises:
  "list_handler utc_world (Some (QObj [(ascii ''toString'', QStr (ascii ''x''))])) None
     = (\<lparr>status = 500,
         body = JObj [(''success'', JBool False),
                      (''error'', JStr (ascii ''Cannot convert object to primitive value''))]\<rparr>,
        [])"
  by (simp add: list_handler_def pagination_def parseInt_query_def globalErrorHandler_def
      type_error_def utc_world_def errorResponse_def)

lemma pagination_block_accepted:
  assumes "pagination qpage qlimit = Inr b" and "page_query_error w (skip b) (limit b) = None"
  shows "pagination_block (fst (list_handler w qpage qlimit)) =
     JObj
       [(''currentPage'', json_number (page b)),
        (''totalPages'', totalPages_of (length (collection w)) (limit b)),
        (''totalItems'', JNum (int (length (collection w)))),
        (''itemsPerPage'', json_number (limit b)),
        (''hasNextPage'', JBool (js_less (js_mult (page b) (limit b))
                                   (Num (int (length (collection w)))))),
        (''hasPrevPage'', JBool (js_less (Num 1) (page b)))]"
  by (simp add: list_handler_accepted [OF assms] pagination_block_def field_def)

text \<open>
  C5, as stated: "for any raw page and limit values, itemsPerPage == clamp(limit, 1, 50)".
  The request \<^verbatim>\<open>limit=0\<close> asks for the limit 0, whose clamp to 1..50 is 1, and the 200
  response reports 10 items per page.
\<close>

theorem items_per_page_is_clamp_counterexample:
  "parseInt (ascii ''0'') = Num 0
   \<and> status (fst (list_handler utc_world None (Some (QStr (ascii ''0''))))) = 200
   \<and> field (pagination_block (fst (list_handler utc_world None (Some (QStr (ascii ''0''))))))
        ''itemsPerPage'' = Some (JNum 10)
   \<and> clamp 0 1 50 = 1"
proof -
  have z: "parseInt (ascii ''0'') = Num 0"
    by (rule parseInt_examples)
  have b: "pagination None (Some (QStr (ascii ''0'')))
      = Inr \<lparr>page = Num 1, limit = Num 10, skip = Num 0\<rparr>"
    by (simp add: pagination_value [OF parseInt_query_absent parseInt_query_string] z
        page_closed_form limit_closed_form to_double_small)
  have ok: "page_query_error utc_world
      (skip \<lparr>page = Num 1, limit = Num 10, skip = Num 0\<rparr>)
      (limit \<lparr>page = Num 1, limit = Num 10, skip = Num 0\<rparr>) = None"
    by (simp add: utc_world_def)
  have "status (fst (list_handler utc_world None (Some (QStr (ascii ''0''))))) = 200"
    by (simp add: list_handler_accepted [OF b ok])
  moreover
  have "field (pagination_block (fst (list_handler utc_world None (Some (QStr (ascii ''0''))))))
        ''itemsPerPage'' = Some (JNum 10)"
    by (simp add: pagination_block_accepted [OF b ok] field_def json_number_def)
  moreover have "clamp 0 1 50 = 1"
    by (simp add: clamp_def)
  ultimately show ?thesis
    using z by (intro conjI)
qed

text \<open>
  C5, amended. For every request to \<^verbatim>\<open>GET /api/quotes\<close> whose page and limit are read
  without an error (as \<open>x\<close> and \<open>y\<close>: the result of \<^verbatim>\<open>parseInt\<close>, NaN for an absent value),
  whose query the store accepts and whose store holds at most \<open>2^53\<close> records, the response
  is 200, the store was asked for the page and then for the count, and the pagination block
  satisfies:

  \<^item> \<^verbatim>\<open>itemsPerPage\<close> is \<open>L\<close>, the clamp to 1..50 of the limit read when one is read and it
    is not 0, and 10 when none is read or it is 0 (50 and 1 for the infinities);
  \<^item> \<^verbatim>\<open>currentPage\<close> is the computed page \<open>P = max(1, x or 1)\<close>, written as null when it
    is infinite;
  \<^item> \<^verbatim>\<open>totalPages\<close> is \<open>ceil (totalItems / itemsPerPage)\<close>;
  \<^item> \<^verbatim>\<open>totalItems\<close> is the store's record count;
  \<^item> \<^verbatim>\<open>hasNextPage\<close> is \<open>P * itemsPerPage < totalItems\<close>, false for an infinite page;
  \<^item> \<^verbatim>\<open>hasPrevPage\<close> is \<open>P > 1\<close>.
\<close>

theorem list_handler_pagination_block:
  "parseInt_query qpage = Inr x \<and> parseInt_query qlimit = Inr y
   \<and> pagination qpage qlimit = Inr b \<and> page_query_error w (skip b) (limit b) = None
   \<and> int (length (collection w)) \<le> 2 ^ 53
   \<and> L = (case y of NaN \<Rightarrow> 10 | Num v \<Rightarrow> if v = 0 then 10 else clamp v 1 50
           | PosInf \<Rightarrow> 50 | NegInf \<Rightarrow> 1)
   \<and> P = (case x of NaN \<Rightarrow> Num 1 | Num v \<Rightarrow> Num (max 1 v) | PosInf \<Rightarrow> PosInf
           | NegInf \<Rightarrow> Num 1)
   \<longrightarrow>
     status (fst (list_handler w qpage qlimit)) = 200
     \<and> snd (list_handler w qpage qlimit) = [StoreFindPage (skip b) (limit b), StoreCount]
     \<and> page b = P \<and> limit b = Num L \<and> 1 \<le> L \<and> L \<le> 50
     \<and> field (pagination_block (fst (list_handler w qpage qlimit))) ''itemsPerPage''
         = Some (JNum L)
     \<and> field (pagination_block (fst (list_handler w qpage qlimit))) ''currentPage''
         = Some (case P of Num p \<Rightarrow> JNum p | _ \<Rightarrow> JNull)
     \<and> field (pagination_block (fst (list_handler w qpage qlimit))) ''totalPages''
         = Some (JNum \<lceil>(of_nat (length (collection w)) :: rat) / of_int L\<rceil>)
     \<and> field (pagination_block (fst (list_handler w qpage qlimit))) ''totalItems''
         = Some (JNum (int (length (collection w))))
     \<and> field (pagination_block (fst (list_handler w qpage qlimit))) ''hasNextPage''
         = Some (JBool (case P of Num p \<Rightarrow> p * L < int (length (collection w)) | _ \<Rightarrow> False))
     \<and> field (pagination_block (fst (list_handler w qpage qlimit))) ''hasPrevPage''
         = Some (JBool (case P of Num p \<Rightarrow> 1 < p | _ \<Rightarrow> True))"
proof (intro impI, elim conjE)
  assume x: "parseInt_query qpage = Inr x" and y: "parseInt_query qlimit = Inr y"
    and b: "pagination qpage qlimit = Inr b"
    and ok: "page_query_error w (skip b) (limit b) = None"
    and len: "int (length (collection w)) \<le> 2 ^ 53"
    and L: "L = (case y of NaN \<Rightarrow> 10 | Num v \<Rightarrow> if v = 0 then 10 else clamp v 1 50
           | PosInf \<Rightarrow> 50 | NegInf \<Rightarrow> 1)"
    and P: "P = (case x of NaN \<Rightarrow> Num 1 | Num v \<Rightarrow> Num (max 1 v) | PosInf \<Rightarrow> PosInf
           | NegInf \<Rightarrow> Num 1)"
  from pagination_value [OF x y] b have pg: "page b = P" and "limit b = Num L"
    unfolding page_closed_form limit_closed_form P L
    by (auto simp: clamp_def split: jsnum.splits)
  then have lm: "limit b = Num L"
    by simp
  have L1: "1 \<le> L" and L50: "L \<le> 50"
    unfolding L by (auto simp: clamp_def split: jsnum.splits)
  note blk = pagination_block_accepted [OF b ok, unfolded pg lm]
  have cases_P: "(\<exists>p. P = Num p \<and> 1 \<le> p) \<or> P = PosInf"
    unfolding P by (cases x) auto
  have nxt: "js_less (js_mult P (Num L)) (Num (int (length (collection w))))
      = (case P of Num p \<Rightarrow> p * L < int (length (collection w)) | _ \<Rightarrow> False)"
    using cases_P
  proof
    assume "\<exists>p. P = Num p \<and> 1 \<le> p"
    then obtain p where p: "P = Num p" "1 \<le> p"
      by blast
    with L1 have "0 \<le> p * L"
      by simp
    from js_less_to_double [OF this len] show ?thesis
      by (simp add: p)
  next
    assume "P = PosInf"
    with L1 show ?thesis
      by simp
  qed
  have prv: "js_less (Num 1) P = (case P of Num p \<Rightarrow> 1 < p | _ \<Rightarrow> True)"
    using cases_P by auto
  have cur: "json_number P = (case P of Num p \<Rightarrow> JNum p | _ \<Rightarrow> JNull)"
    by (simp add: json_number_def)
  have tot: "totalPages_of (length (collection w)) (Num L)
      = JNum \<lceil>(of_nat (length (collection w)) :: rat) / of_int L\<rceil>"
    using L1 by (simp add: totalPages_of_def)
  show "status (fst (list_handler w qpage qlimit)) = 200
     \<and> snd (list_handler w qpage qlimit) = [StoreFindPage (skip b) (limit b), StoreCount]
     \<and> page b = P \<and> limit b = Num L \<and> 1 \<le> L \<and> L \<le> 50
     \<and> field (pagination_block (fst (list_handler w qpage qlimit))) ''itemsPerPage''
         = Some (JNum L)
     \<and> field (pagination_block (fst (list_handler w qpage qlimit))) ''currentPage''
         = Some (case P of Num p \<Rightarrow> JNum p | _ \<Rightarrow> JNull)
     \<and> field (pagination_block (fst (list_handler w qpage qlimit))) ''totalPages''
         = Some (JNum \<lceil>(of_nat (length (collection w)) :: rat) / of_int L\<rceil>)
     \<and> field (pagination_block (fst (list_handler w qpage qlimit))) ''totalItems''
         = Some (JNum (int (length (collection w))))
     \<and> field (pagination_block (fst (list_handler w qpage qlimit))) ''hasNextPage''
         = Some (JBool (case P of Num p \<Rightarrow> p * L < int (length (collection w)) | _ \<Rightarrow> False))
     \<and> field (pagination_block (fst (list_handler w qpage qlimit))) ''hasPrevPage''
         = Some (JBool (case P of Num p \<Rightarrow> 1 < p | _ \<Rightarrow> True))"
    unfolding blk
    by (simp add: list_handler_accepted [OF b ok] pg lm L1 L50 field_def nxt prv cur tot
        json_number_def)
qed

text \<open>
  The example of the specification: two records, \<^verbatim>\<open>page=1&limit=1\<close>. And sixty records
  with \<^verbatim>\<open>page=2&limit=500\<close>: the limit is clamped to 50 and the second page is the last.
\<close>

theorem list_handler_pagination_block_witness:
  "status (fst (list_handler utc_world (Some (QStr (ascii ''1''))) (Some (QStr (ascii ''1''))))) = 200
   \<and> map (field (pagination_block
            (fst (list_handler utc_world (Some (QStr (ascii ''1''))) (Some (QStr (ascii ''1'')))))))
        [''currentPage'', ''totalPages'', ''totalItems'', ''itemsPerPage'', ''hasNextPage'',
         ''hasPrevPage'']
       = [Some (JNum 1), Some (JNum 2), Some (JNum 2), Some (JNum 1), Some (JBool True),
          Some (JBool False)]
   \<and> status (fst (list_handler crowded_world (Some (QStr (ascii ''2'')))
                 (Some (QStr (ascii ''500''))))) = 200
   \<and> map (field (pagination_block
            (fst (list_handler crowded_world (Some (QStr (ascii ''2'')))
                   (Some (QStr (ascii ''500'')))))))
        [''currentPage'', ''totalPages'', ''totalItems'', ''itemsPerPage'', ''hasNextPage'',
         ''hasPrevPage'']
       = [Some (JNum 2), Some (JNum 2), Some (JNum 60), Some (JNum 50), Some (JBool False),
          Some (JBool True)]"
proof -
  have two: "parseInt (ascii ''2'') = Num 2"
    by (simp add: parseInt_def parseInt_trimmed_def ascii_def is_white_def digit_value_def
        radix_value_def to_double_small)
  have x1: "parseInt_query (Some (QStr (ascii ''1''))) = Inr (Num 1)"
    and x2: "parseInt_query (Some (QStr (ascii ''2''))) = Inr (Num 2)"
    and y500: "parseInt_query (Some (QStr (ascii ''500''))) = Inr (Num 500)"
    by (simp_all add: parseInt_query_string parseInt_examples two)
  have b1: "pagination (Some (QStr (ascii ''1''))) (Some (QStr (ascii ''1'')))
      = Inr \<lparr>page = Num 1, limit = Num 1, skip = Num 0\<rparr>"
    by (simp add: pagination_value [OF x1 x1] page_closed_form limit_closed_form
        to_double_small)
  have b2: "pagination (Some (QStr (ascii ''2''))) (Some (QStr (ascii ''500'')))
      = Inr \<lparr>page = Num 2, limit = Num 50, skip = Num 50\<rparr>"
    by (simp add: pagination_value [OF x2 y500] page_closed_form limit_closed_form
        to_double_small)
  have len: "length (collection utc_world) = 2" "length (collection crowded_world) = 60"
    by (simp_all add: utc_world_def crowded_world_def)
  have ceil: "\<lceil>(6::rat) / 5\<rceil> = 2"
    by (rule ceiling_unique) simp_all
  have ok: "page_query_error utc_world (Num 0) (Num 1) = None"
    "page_query_error crowded_world (Num 50) (Num 50) = None"
    by (simp_all add: utc_world_def crowded_world_def)
  from list_handler_pagination_block [where w = utc_world
      and qpage = "Some (QStr (ascii ''1''))" and qlimit = "Some (QStr (ascii ''1''))"
      and x = "Num 1" and y = "Num 1" and L = 1 and P = "Num 1"
      and b = "\<lparr>page = Num 1, limit = Num 1, skip = Num 0\<rparr>"]
    x1 b1 ok(1)
  have 1: "status (fst (list_handler utc_world (Some (QStr (ascii ''1'')))
        (Some (QStr (ascii ''1''))))) = 200
   \<and> map (field (pagination_block
            (fst (list_handler utc_world (Some (QStr (ascii ''1''))) (Some (QStr (ascii ''1'')))))))
        [''currentPage'', ''totalPages'', ''totalItems'', ''itemsPerPage'', ''hasNextPage'',
         ''hasPrevPage'']
       = [Some (JNum 1), Some (JNum 2), Some (JNum 2), Some (JNum 1), Some (JBool True),
          Some (JBool False)]"
    by (simp add: len clamp_def)
  from list_handler_pagination_block [where w = crowded_world
      and qpage = "Some (QStr (ascii ''2''))" and qlimit = "Some (QStr (ascii ''500''))"
      and x = "Num 2" and y = "Num 500" and L = 50 and P = "Num 2"
      and b = "\<lparr>page = Num 2, limit = Num 50, skip = Num 50\<rparr>"]
    x2 y500 b2 ok(2)
  have 2: "status (fst (list_handler crowded_world (Some (QStr (ascii ''2'')))
                 (Some (QStr (ascii ''500''))))) = 200
   \<and> map (field (pagination_block
            (fst (list_handler crowded_world (Some (QStr (ascii ''2'')))
                   (Some (QStr (ascii ''500'')))))))
        [''currentPage'', ''totalPages'', ''totalItems'', ''itemsPerPage'', ''hasNextPage'',
         ''hasPrevPage'']
       = [Some (JNum 2), Some (JNum 2), Some (JNum 60), Some (JNum 50), Some (JBool False),
          Some (JBool True)]"
    by (simp add: len clamp_def ceil)
  from 1 2 show ?thesis
    by simp
qed

end
